theory Spec2Isabelle
  imports Main
begin

section \<open>JavaScript values\<close>

text \<open>
  The source types \<^verbatim>\<open>Score\<close>, \<^verbatim>\<open>Hint\<close>, \<^verbatim>\<open>SerializedState\<close>, \<^verbatim>\<open>WidgetRef\<close> and
  \<^verbatim>\<open>FindWidgetsFilterCriterion\<close> are all \<^verbatim>\<open>any\<close>: an untyped JavaScript value.
\<close>

datatype jsval =
    JUndefined
  | JNull
  | JBool bool
  | JNum int
  | JStr string
  | JArr "jsval list"
  | JObj "(string \<times> jsval) list"

text \<open>JavaScript truthiness, as \<^verbatim>\<open>if (!state)\<close> reads it.\<close>

fun truthy :: "jsval \<Rightarrow> bool" where
  "truthy JUndefined = False"
| "truthy JNull = False"
| "truthy (JBool b) = b"
| "truthy (JNum n) = (n \<noteq> 0)"
| "truthy (JStr s) = (s \<noteq> [])"
| "truthy (JArr vs) = True"
| "truthy (JObj kvs) = True"

section \<open>Shapes, trees and the tree mapper\<close>

text \<open>
  Modelled from the spec: the types \<^verbatim>\<open>Shape\<close> of \<^verbatim>\<open>shape-types.js\<close> and \<^verbatim>\<open>Tree\<close> of
  \<^verbatim>\<open>tree-types.js\<close>, which are not among the sources. A shape is a content leaf, a hint
  leaf, a tags leaf, or an array of one element shape (\<^verbatim>\<open>shape.elementShape\<close>); a tree is the
  sum type that mirrors it, with a payload at each leaf.
\<close>

datatype shape = ContentShape | HintShape | TagsShape | ArrayShape shape

type_synonym path = "nat list"

text \<open>
  A tree \<^verbatim>\<open>Tree<C, H, T>\<close>. An array node is a JavaScript array: its elements, and the
  extra property an array mapper attached to the array object, if any (\<^verbatim>\<open>firstN\<close> below).
  In the source a tree is an untagged value: a leaf is its payload itself, and the
  constructors here record which leaf the shape makes of it.
\<close>

datatype ('c, 'h, 't, 'a) tree =
    Content 'c
  | Hint 'h
  | Tags 't
  | Array "('c, 'h, 't, 'a) tree list" "'a option"

datatype error = ShapeMismatch path | TypeError string

type_synonym ('x, 'y, 's) leafMapper = "'x \<Rightarrow> shape \<Rightarrow> path \<Rightarrow> 's \<Rightarrow> 'y \<times> 's"

type_synonym ('i, 'o, 'a) arrayMapper =
  "'o list \<Rightarrow> 'i list \<Rightarrow> shape \<Rightarrow> path \<Rightarrow> 'o list \<times> 'a option"

record ('c, 'h, 't, 'a, 'c2, 'h2, 't2, 'a2, 's) treeMapper =
  contentMapper :: "('c, 'c2, 's) leafMapper"
  hintMapper :: "('h, 'h2, 's) leafMapper"
  tagsMapper :: "('t, 't2, 's) leafMapper"
  arrayMapper :: "(('c, 'h, 't, 'a) tree, ('c2, 'h2, 't2, 'a2) tree, 'a2) arrayMapper option"

text \<open>
  Modelled from the spec: \<^verbatim>\<open>mapTree\<close> of \<^verbatim>\<open>trees.js\<close>, which is not among the sources.
  It walks tree and shape in lock-step from the root path, left to right, applies the
  matching transform at each leaf, recurses into arrays with the index appended to the
  path, and applies the array mapper, when one is configured, to the mapped children of
  each array. A tree that disagrees with the shape is a \<open>ShapeMismatch\<close> carrying the
  offending path. The transforms of the multi-renderer have side effects (they push to
  arrays, count, allocate), so each leaf transform also takes and returns a state \<open>'s\<close>;
  an error discards it, as an exception discards the traversal. The array mapper is
  handed the mapped children, the original children, the shape of the array (whose
  \<^verbatim>\<open>elementShape\<close> the multi-renderer reads) and the path; the mapped children it is handed
  are a fresh array with no extra property.
\<close>

fun mapTree ::
    "('c, 'h, 't, 'a, 'c2, 'h2, 't2, 'a2, 's) treeMapper \<Rightarrow> ('c, 'h, 't, 'a) tree \<Rightarrow> shape \<Rightarrow>
      path \<Rightarrow> 's \<Rightarrow> error + (('c2, 'h2, 't2, 'a2) tree \<times> 's)"
  and mapElements ::
    "('c, 'h, 't, 'a, 'c2, 'h2, 't2, 'a2, 's) treeMapper \<Rightarrow> ('c, 'h, 't, 'a) tree list \<Rightarrow> shape \<Rightarrow>
      path \<Rightarrow> nat \<Rightarrow> 's \<Rightarrow> error + (('c2, 'h2, 't2, 'a2) tree list \<times> 's)"
where
  "mapTree m (Content c) ContentShape p s =
     (case contentMapper m c ContentShape p s of (y, s') \<Rightarrow> Inr (Content y, s'))"
| "mapTree m (Hint h) HintShape p s =
     (case hintMapper m h HintShape p s of (y, s') \<Rightarrow> Inr (Hint y, s'))"
| "mapTree m (Tags t) TagsShape p s =
     (case tagsMapper m t TagsShape p s of (y, s') \<Rightarrow> Inr (Tags y, s'))"
| "mapTree m (Array ts ann) (ArrayShape es) p s =
     (case mapElements m ts es p 0 s of
        Inl e \<Rightarrow> Inl e
      | Inr (ys, s') \<Rightarrow>
          (case arrayMapper m of
             None \<Rightarrow> Inr (Array ys None, s')
           | Some f \<Rightarrow> (case f ys ts (ArrayShape es) p of (ys', ann') \<Rightarrow> Inr (Array ys' ann', s'))))"
| "mapTree m t sh p s = Inl (ShapeMismatch p)"
| "mapElements m [] es p i s = Inr ([], s)"
| "mapElements m (t # ts) es p i s =
     (case mapTree m t es (p @ [i]) s of
        Inl e \<Rightarrow> Inl e
      | Inr (y, s') \<Rightarrow>
          (case mapElements m ts es p (Suc i) s' of
             Inl e \<Rightarrow> Inl e
           | Inr (ys, s'') \<Rightarrow> Inr (y # ys, s'')))"

text \<open>
  Modelled from the spec: the Path/Lens accessor \<^verbatim>\<open>lens(structure).get(path)\<close> of
  \<^verbatim>\<open>hubble\<close>, which is not among the sources. It navigates a plain nested value along
  the path the mapper produced and tolerates missing structure: a step that cannot be
  taken yields \<^verbatim>\<open>undefined\<close> instead of failing.
\<close>

fun lens_get :: "jsval \<Rightarrow> path \<Rightarrow> jsval" where
  "lens_get v [] = v"
| "lens_get (JArr vs) (i # p) = (if i < length vs then lens_get (vs ! i) p else JUndefined)"
| "lens_get v (i # p) = JUndefined"

section \<open>The data of the multi-renderer\<close>

type_synonym addr = nat

text \<open>
  An item is an object: \<open>item_ref\<close> is its identity (what \<^verbatim>\<open>!==\<close> compares), \<open>multi\<close> the
  tree it holds under \<^verbatim>\<open>_multi\<close>.
\<close>

record item =
  item_ref :: nat
  multi :: "(jsval, jsval, jsval, unit) tree"

text \<open>
  Modelled from the spec: \<^verbatim>\<open>itemToTree\<close> of \<^verbatim>\<open>items.js\<close>, which is not among the
  sources. The item is a tree-shaped value with content, hint and tags payloads at its
  leaves; its tree is the value it holds.
\<close>

definition itemToTree :: "item \<Rightarrow> (jsval, jsval, jsval, unit) tree" where
  "itemToTree i = multi i"

text \<open>
  \<^verbatim>\<open>Props\<close>: the item, the shape, and the props that are delegated to the renderers
  (\<open>otherProps\<close>). The \<^verbatim>\<open>children\<close> function is the consumer's; \<open>render\<close> below returns the
  argument it is called with.
\<close>

record props =
  item :: item
  shape :: shape
  otherProps :: jsval

text \<open>
  The React elements the multi-renderer constructs. A \<^verbatim>\<open><Renderer>\<close> carries the delegated
  props, the content node, and the two closures \<^verbatim>\<open>ref\<close> and \<^verbatim>\<open>findExternalWidgets\<close>, which
  both capture the cell \<^verbatim>\<open>data\<close>: the address of that cell. A \<^verbatim>\<open><HintsRenderer>\<close> carries
  the delegated props, \<^verbatim>\<open>hints\<close> and \<^verbatim>\<open>hintsVisible\<close> (when given).
\<close>

datatype element =
    RendererElement jsval jsval addr
  | HintsRendererElement jsval "jsval list" "nat option"

text \<open>
  A mounted \<^verbatim>\<open>Renderer\<close> instance, as far as the multi-renderer uses it: what each of its
  methods returns, and whether its \<^verbatim>\<open>restoreSerializedState\<close> runs the callback it is given
  before it returns (synchronously) or at a later tick.
\<close>

record rendererInstance =
  findInternalWidgets :: "jsval \<Rightarrow> jsval list"
  guessAndScore :: "jsval \<times> jsval"
  instScore :: jsval
  getUserInput :: jsval
  instSerializedState :: jsval
  restoresSynchronously :: bool

text \<open>
  \<^verbatim>\<open>ContentRendererData | HintRendererData\<close>: a cell. Cells are mutable objects compared by
  identity, so they live in a heap (a list; the address of a cell is its index) and the
  cached tree holds their addresses. A content cell has no \<^verbatim>\<open>hint\<close> property: reading it
  gives \<^verbatim>\<open>undefined\<close>.
\<close>

record rendererData =
  renderer :: element
  ref :: "rendererInstance option"
  hint :: jsval

type_synonym rendererDataTree = "(addr, addr, unit, unit) tree"

text \<open>
  \<^verbatim>\<open>RendererDataTree = Tree<ContentRendererData, HintRendererData, null>\<close>: the tree of a
  tags leaf is the value the tags mapper returned, \<^verbatim>\<open>null\<close>. A nullable field that holds
  that tree is therefore \<^verbatim>\<open>null\<close>, and \<^verbatim>\<open>!rendererDataTree\<close> is true of it; every other tree
  (a cell, an array) is an object.
\<close>

fun nullableTree :: "rendererDataTree \<Rightarrow> rendererDataTree option" where
  "nullableTree (Tags u) = None"
| "nullableTree t = Some t"

record state =
  rendererDataTree :: "rendererDataTree option"
  renderError :: "error option"

text \<open>
  The component: its props, its state, the heap of the cells it has allocated and the
  lines it has written with \<^verbatim>\<open>console.error\<close>.
\<close>

record multiRenderer =
  props :: props
  state :: state
  heap :: "rendererData list"
  console :: "error list"

section \<open>Building the cached tree\<close>

definition getRendererProps :: "multiRenderer \<Rightarrow> jsval" where
  "getRendererProps this = otherProps (props this)"

definition makeContentRendererData ::
    "multiRenderer \<Rightarrow> jsval \<Rightarrow> rendererData list \<Rightarrow> addr \<times> rendererData list" where
  "makeContentRendererData this content h =
     (length h,
      h @ [\<lparr>renderer = RendererElement (getRendererProps this) content (length h),
             ref = None, hint = JUndefined\<rparr>])"

definition makeHintRendererData ::
    "multiRenderer \<Rightarrow> jsval \<Rightarrow> rendererData list \<Rightarrow> addr \<times> rendererData list" where
  "makeHintRendererData this hnt h =
     (length h,
      h @ [\<lparr>renderer = HintsRendererElement (getRendererProps this) [hnt] None,
             ref = None, hint = hnt\<rparr>])"

text \<open>The \<^verbatim>\<open>mapper\<close> of \<^verbatim>\<open>_makeRendererDataTree\<close>; its state is the heap the cells go to.\<close>

definition rendererDataMapper ::
    "multiRenderer \<Rightarrow>
      (jsval, jsval, jsval, unit, addr, addr, unit, unit, rendererData list) treeMapper" where
  "rendererDataMapper this =
     \<lparr>contentMapper = (\<lambda>c _ _. makeContentRendererData this c),
      hintMapper = (\<lambda>hnt _ _. makeHintRendererData this hnt),
      tagsMapper = (\<lambda>t _ _ s. ((), s)),
      arrayMapper = None\<rparr>"

definition makeRendererDataTree ::
    "multiRenderer \<Rightarrow> item \<Rightarrow> shape \<Rightarrow> rendererData list \<Rightarrow>
      error + (rendererDataTree \<times> rendererData list)" where
  "makeRendererDataTree this itm sh h = mapTree (rendererDataMapper this) (itemToTree itm) sh [] h"

text \<open>
  \<^verbatim>\<open>_tryMakeRendererState\<close> returns the new state; what it does to the world besides (the
  cells it allocated, the line it logged) is returned as the updated component.
\<close>

definition tryMakeRendererState :: "multiRenderer \<Rightarrow> props \<Rightarrow> state \<times> multiRenderer" where
  "tryMakeRendererState this p =
     (case makeRendererDataTree this (item p) (shape p) (heap this) of
        Inr (t, h') \<Rightarrow>
          (\<lparr>rendererDataTree = nullableTree t, renderError = None\<rparr>, this\<lparr>heap := h'\<rparr>)
      | Inl e \<Rightarrow>
          (\<lparr>rendererDataTree = None, renderError = Some e\<rparr>,
           this\<lparr>console := console this @ [e]\<rparr>))"

text \<open>
  The constructor: \<^verbatim>\<open>super(props)\<close> sets the props, then the state is computed. The
  state field holds no value before that assignment; the function above never reads it.
\<close>

definition constructor :: "props \<Rightarrow> multiRenderer" where
  "constructor p =
     (let this = \<lparr>props = p,
                   state = \<lparr>rendererDataTree = None, renderError = None\<rparr>,
                   heap = [], console = []\<rparr>
      in case tryMakeRendererState this p of (st, this') \<Rightarrow> this'\<lparr>state := st\<rparr>)"

definition componentWillReceiveProps :: "multiRenderer \<Rightarrow> props \<Rightarrow> multiRenderer" where
  "componentWillReceiveProps this nextProps =
     (if item_ref (item nextProps) \<noteq> item_ref (item (props this))
      then (case tryMakeRendererState this nextProps of (st, this') \<Rightarrow> this'\<lparr>state := st\<rparr>)
      else this)"

text \<open>
  React's update: it calls \<^verbatim>\<open>componentWillReceiveProps\<close> with the next props while
  \<^verbatim>\<open>this.props\<close> still holds the current ones, then installs the next props.
\<close>

definition receiveProps :: "multiRenderer \<Rightarrow> props \<Rightarrow> multiRenderer" where
  "receiveProps this nextProps = (componentWillReceiveProps this nextProps)\<lparr>props := nextProps\<rparr>"

text \<open>The \<^verbatim>\<open>ref\<close> closure of a \<^verbatim>\<open><Renderer>\<close>: \<^verbatim>\<open>e => data.ref = e\<close>.\<close>

definition refCallback :: "multiRenderer \<Rightarrow> addr \<Rightarrow> rendererInstance option \<Rightarrow> multiRenderer" where
  "refCallback this data e = this\<lparr>heap := (heap this)[data := (heap this ! data)\<lparr>ref := e\<rparr>]\<rparr>"

section \<open>Traversing the cached tree\<close>

text \<open>
  \<^verbatim>\<open>_mapRenderers\<close>: \<^verbatim>\<open>null\<close> when the cached tree is \<^verbatim>\<open>null\<close> (there is none, or it is the
  tree of a lone tags leaf); otherwise the cached tree mapped
  against \<^verbatim>\<open>this.props.shape\<close> with the leaf mapper at content and hint leaves, and the
  array mapper when one is given. The tags mapper is left as the builder made it. The
  leaf mapper is handed the cell; here, its address.

  Modelled from the spec: the transforms of a fresh \<^verbatim>\<open>buildMapper()\<close> of \<^verbatim>\<open>trees.js\<close>, which
  is not among the sources. A transform that was never set leaves the value as it is, as
  the result type \<^verbatim>\<open>Tree<O, O, null>\<close> of \<^verbatim>\<open>_mapRenderers\<close> requires of the tags leaves.
\<close>

definition mapRenderers ::
    "multiRenderer \<Rightarrow> (addr, 'o, 's) leafMapper \<Rightarrow>
      (rendererDataTree, ('o, 'o, unit, 'a) tree, 'a) arrayMapper option \<Rightarrow> 's \<Rightarrow>
      error + (('o, 'o, unit, 'a) tree option \<times> 's)" where
  "mapRenderers this leafMapper am s =
     (case rendererDataTree (state this) of
        None \<Rightarrow> Inr (None, s)
      | Some t \<Rightarrow>
          (case mapTree
                  \<lparr>contentMapper = leafMapper, hintMapper = leafMapper,
                   tagsMapper = (\<lambda>t _ _ s. (t, s)), arrayMapper = am\<rparr>
                  t (shape (props this)) [] s of
             Inl e \<Rightarrow> Inl e
           | Inr (t', s') \<Rightarrow> Inr (Some t', s')))"

section \<open>Widget discovery\<close>

definition findWidgets :: "multiRenderer \<Rightarrow> addr \<Rightarrow> jsval \<Rightarrow> error + jsval list" where
  "findWidgets this callingData filterCriterion =
     (case mapRenderers this
             (\<lambda>data _ _ results.
                ((), case ref (heap this ! data) of
                       Some r \<Rightarrow>
                         if callingData \<noteq> data
                         then results @ findInternalWidgets r filterCriterion
                         else results
                     | None \<Rightarrow> results))
             (None :: (rendererDataTree, (unit, unit, unit, unit) tree, unit) arrayMapper option)
             [] of
        Inl e \<Rightarrow> Inl e
      | Inr (_, results) \<Rightarrow> Inr results)"

section \<open>Scores\<close>

text \<open>
  \<^verbatim>\<open>Util.keScoreFromPerseusScore\<close> and \<^verbatim>\<open>Util.combineScores\<close> are not among the sources; the
  functions below take them as the parameters \<open>ke\<close> and \<open>combine\<close>.
\<close>

definition scoreFromRef :: "(jsval \<Rightarrow> jsval \<Rightarrow> jsval) \<Rightarrow> rendererInstance option \<Rightarrow> jsval" where
  "scoreFromRef ke r =
     (case r of
        None \<Rightarrow> JNull
      | Some i \<Rightarrow> (case guessAndScore i of (guess, score) \<Rightarrow> ke score guess))"

type_synonym valueTree = "(jsval, jsval, unit, unit) tree"

definition getScores :: "(jsval \<Rightarrow> jsval \<Rightarrow> jsval) \<Rightarrow> multiRenderer \<Rightarrow> error + valueTree option" where
  "getScores ke this =
     (case mapRenderers this
             (\<lambda>data _ _ s. (scoreFromRef ke (ref (heap this ! data)), s))
             None () of
        Inl e \<Rightarrow> Inl e
      | Inr (t, _) \<Rightarrow> Inr t)"

text \<open>
  \<^verbatim>\<open>Array.prototype.reduce\<close> called without an initial value: on an empty array it throws
  a TypeError, otherwise it folds from the first element.
\<close>

fun reduce :: "('x \<Rightarrow> 'x \<Rightarrow> 'x) \<Rightarrow> 'x list \<Rightarrow> error + 'x" where
  "reduce f [] = Inl (TypeError ''Reduce of empty array with no initial value'')"
| "reduce f (x # xs) = Inr (foldl f x xs)"

text \<open>
  The guess handed to \<^verbatim>\<open>keScoreFromPerseusScore\<close> by \<^verbatim>\<open>score\<close> is the mapped tree as the
  plain value it is in JavaScript: an array for an array node, \<^verbatim>\<open>null\<close> at a tags leaf.
\<close>

fun treeToValue :: "(jsval, jsval, unit, 'a) tree \<Rightarrow> jsval" where
  "treeToValue (Content v) = v"
| "treeToValue (Hint v) = v"
| "treeToValue (Tags u) = JNull"
| "treeToValue (Array ts ann) = JArr (map treeToValue ts)"

definition score ::
    "(jsval \<Rightarrow> jsval \<Rightarrow> jsval) \<Rightarrow> (jsval \<Rightarrow> jsval \<Rightarrow> jsval) \<Rightarrow> multiRenderer \<Rightarrow> error + jsval" where
  "score combine ke this =
     (case mapRenderers this
             (\<lambda>data _ _ scores.
                case ref (heap this ! data) of
                  None \<Rightarrow> (JNull, scores)
                | Some r \<Rightarrow> (getUserInput r, scores @ [instScore r]))
             (None :: (rendererDataTree, valueTree, unit) arrayMapper option)
             [] of
        Inl e \<Rightarrow> Inl e
      | Inr (guess, scores) \<Rightarrow>
          (case reduce combine scores of
             Inl e \<Rightarrow> Inl e
           | Inr combinedScore \<Rightarrow>
               Inr (ke combinedScore (case guess of None \<Rightarrow> JNull | Some g \<Rightarrow> treeToValue g))))"

section \<open>Serialized state\<close>

definition getSerializedState :: "multiRenderer \<Rightarrow> error + valueTree option" where
  "getSerializedState this =
     (case mapRenderers this
             (\<lambda>data _ _ s.
                (case ref (heap this ! data) of
                   None \<Rightarrow> JNull
                 | Some r \<Rightarrow> instSerializedState r, s))
             None () of
        Inl e \<Rightarrow> Inl e
      | Inr (t, _) \<Rightarrow> Inr t)"

text \<open>
  What a call of \<^verbatim>\<open>restoreSerializedState\<close> does is a sequence of events: a restoration
  dispatched to the leaf of a cell with a state, that leaf running the callback it was
  given, and the caller's overall callback being invoked. \<open>numCallbacks\<close> is the counter
  of the source, \<open>pending\<close> the leaves that hold \<^verbatim>\<open>countCallback\<close> and have not yet run it.
\<close>

datatype event = Dispatched addr jsval | LeafCompleted addr | OverallCallback

record restoration =
  numCallbacks :: int
  pending :: "addr list"
  events :: "event list"

text \<open>\<^verbatim>\<open>countCallback\<close>; \<open>callback\<close> says whether the caller supplied a (truthy) callback.\<close>

definition countCallback :: "bool \<Rightarrow> restoration \<Rightarrow> restoration" where
  "countCallback callback r =
     (let r' = r\<lparr>numCallbacks := numCallbacks r - 1\<rparr>
      in if callback \<and> numCallbacks r' = 0
         then r'\<lparr>events := events r' @ [OverallCallback]\<rparr>
         else r')"

text \<open>The leaf of cell \<open>a\<close> completes its restoration: it runs the callback it was given.\<close>

definition leafCompletes :: "bool \<Rightarrow> addr \<Rightarrow> restoration \<Rightarrow> restoration" where
  "leafCompletes callback a r = countCallback callback (r\<lparr>events := events r @ [LeafCompleted a]\<rparr>)"

text \<open>
  The leaf's own \<^verbatim>\<open>restoreSerializedState(state, countCallback)\<close>: it completes before it
  returns, or keeps the callback for a later tick.
\<close>

definition instRestoreSerializedState ::
    "bool \<Rightarrow> rendererInstance \<Rightarrow> addr \<Rightarrow> jsval \<Rightarrow> restoration \<Rightarrow> restoration" where
  "instRestoreSerializedState callback i a st r =
     (let r' = r\<lparr>events := events r @ [Dispatched a st]\<rparr>
      in if restoresSynchronously i
         then leafCompletes callback a r'
         else r'\<lparr>pending := pending r' @ [a]\<rparr>)"

definition restoreSerializedState :: "multiRenderer \<Rightarrow> jsval \<Rightarrow> bool \<Rightarrow> error + restoration" where
  "restoreSerializedState this serializedState callback =
     (case mapRenderers this
             (\<lambda>data _ path r.
                ((), case ref (heap this ! data) of
                       None \<Rightarrow> r
                     | Some i \<Rightarrow>
                         (let st = lens_get serializedState path
                          in if \<not> truthy st then r
                             else instRestoreSerializedState callback i data st
                                    (r\<lparr>numCallbacks := numCallbacks r + 1\<rparr>))))
             (None :: (rendererDataTree, (unit, unit, unit, unit) tree, unit) arrayMapper option)
             \<lparr>numCallbacks = 0, pending = [], events = []\<rparr> of
        Inl e \<Rightarrow> Inl e
      | Inr (_, r) \<Rightarrow> Inr r)"

text \<open>
  After the call has returned, the leaves that kept the callback complete one by one, in
  any order: \<open>laterCompletions\<close> runs them in the order given.
\<close>

definition completeLater :: "bool \<Rightarrow> addr \<Rightarrow> restoration \<Rightarrow> restoration" where
  "completeLater callback a r =
     (if a \<in> set (pending r)
      then leafCompletes callback a (r\<lparr>pending := remove1 a (pending r)\<rparr>)
      else r)"

definition laterCompletions :: "bool \<Rightarrow> addr list \<Rightarrow> restoration \<Rightarrow> restoration" where
  "laterCompletions callback as r = foldl (\<lambda>r a. completeLater callback a r) r as"

section \<open>Rendering\<close>

text \<open>
  The \<^verbatim>\<open>firstN\<close> closure that \<^verbatim>\<open>_annotateRendererArray\<close> attaches: it captures the cells of the
  array (\<^verbatim>\<open>hintRendererDatas\<close>) and, when called with \<open>n\<close>, makes one \<^verbatim>\<open><HintsRenderer>\<close> of
  their hints with \<open>n\<close> of them visible.
\<close>

datatype firstN = FirstN "rendererDataTree list"

type_synonym rendererTree = "(element, element, unit, firstN) tree"

fun dataHint :: "multiRenderer \<Rightarrow> rendererDataTree \<Rightarrow> jsval" where
  "dataHint this (Content a) = hint (heap this ! a)"
| "dataHint this (Hint a) = hint (heap this ! a)"
| "dataHint this d = JUndefined"

fun callFirstN :: "multiRenderer \<Rightarrow> firstN \<Rightarrow> nat \<Rightarrow> element" where
  "callFirstN this (FirstN hintRendererDatas) n =
     HintsRendererElement (getRendererProps this) (map (dataHint this) hintRendererDatas) (Some n)"

text \<open>
  Arrays are objects too, and \<^verbatim>\<open>_annotateRendererArray\<close> either returns the array it was
  given or a copy with the new property: it takes the store of arrays and the address of
  \<^verbatim>\<open>renderers\<close>, and returns the store and the address of the array it returns. The spread
  \<^verbatim>\<open>[...renderers]\<close> copies the elements only. Its \<^verbatim>\<open>shape\<close> parameter is an \<^verbatim>\<open>ArrayShape\<close>:
  the mapper calls it at array nodes only.
\<close>

record 'e jsArray =
  elems :: "'e list"
  firstNProp :: "firstN option"

definition annotateRendererArray ::
    "'e jsArray list \<Rightarrow> nat \<Rightarrow> rendererDataTree list \<Rightarrow> shape \<Rightarrow> 'e jsArray list \<times> nat" where
  "annotateRendererArray arrays renderers rendererDatas sh =
     (case sh of
        ArrayShape HintShape \<Rightarrow>
          (arrays @ [\<lparr>elems = elems (arrays ! renderers),
                       firstNProp = Some (FirstN rendererDatas)\<rparr>],
           length arrays)
      | _ \<Rightarrow> (arrays, renderers))"

text \<open>
  \<^verbatim>\<open>_getRenderers\<close>. The mapper hands its array mapper the array of mapped children, a
  fresh array with no property of its own: the only object of the store the array mapper
  starts from.
\<close>

definition getRenderers :: "multiRenderer \<Rightarrow> error + rendererTree option" where
  "getRenderers this =
     (case mapRenderers this
             (\<lambda>data _ _ s. (renderer (heap this ! data), s))
             (Some (\<lambda>rs rds s p.
                case annotateRendererArray [\<lparr>elems = rs, firstNProp = None\<rparr>] 0 rds s of
                  (arrays, r) \<Rightarrow> (elems (arrays ! r), firstNProp (arrays ! r))))
             () of
        Inl e \<Rightarrow> Inl e
      | Inr (t, _) \<Rightarrow> Inr t)"

text \<open>
  \<^verbatim>\<open>render\<close>: the error \<^verbatim>\<open><div>\<close>, whose text is the error, or what \<^verbatim>\<open>children\<close> makes of the
  renderers; the latter is represented by the argument \<^verbatim>\<open>children\<close> is called with.
\<close>

datatype rendered = ErrorDiv error | ChildrenOf "rendererTree option"

definition render :: "multiRenderer \<Rightarrow> error + rendered" where
  "render this =
     (case renderError (state this) of
        Some e \<Rightarrow> Inr (ErrorDiv e)
      | None \<Rightarrow>
          (case getRenderers this of
             Inl e \<Rightarrow> Inl e
           | Inr renderers \<Rightarrow> Inr (ChildrenOf renderers)))"

section \<open>Notions the properties are stated with\<close>

text \<open>A tree conforms to a shape when \<open>mapTree\<close> finds the matching node at every position.\<close>

fun conforms :: "('c, 'h, 't, 'a) tree \<Rightarrow> shape \<Rightarrow> bool" where
  "conforms (Content c) ContentShape = True"
| "conforms (Hint h) HintShape = True"
| "conforms (Tags t) TagsShape = True"
| "conforms (Array ts ann) (ArrayShape es) = (\<forall>t \<in> set ts. conforms t es)"
| "conforms t sh = False"

text \<open>The topology of a tree: its nodes without their payloads.\<close>

datatype skeleton = ContentLeaf | HintLeaf | TagsLeaf | ArrayNode "skeleton list"

fun topology :: "('c, 'h, 't, 'a) tree \<Rightarrow> skeleton" where
  "topology (Content c) = ContentLeaf"
| "topology (Hint h) = HintLeaf"
| "topology (Tags t) = TagsLeaf"
| "topology (Array ts ann) = ArrayNode (map topology ts)"

text \<open>The cells of a cached tree in pre-order, alone and with the path of each leaf.\<close>

fun cells :: "rendererDataTree \<Rightarrow> addr list" where
  "cells (Content a) = [a]"
| "cells (Hint a) = [a]"
| "cells (Tags u) = []"
| "cells (Array ts ann) = concat (map cells ts)"

fun cellPaths :: "rendererDataTree \<Rightarrow> path \<Rightarrow> (addr \<times> path) list"
  and cellPathsFrom :: "rendererDataTree list \<Rightarrow> path \<Rightarrow> nat \<Rightarrow> (addr \<times> path) list" where
  "cellPaths (Content a) p = [(a, p)]"
| "cellPaths (Hint a) p = [(a, p)]"
| "cellPaths (Tags u) p = []"
| "cellPaths (Array ts ann) p = cellPathsFrom ts p 0"
| "cellPathsFrom [] p i = []"
| "cellPathsFrom (t # ts) p i = cellPaths t (p @ [i]) @ cellPathsFrom ts p (Suc i)"

text \<open>The cells at the hint leaves of a cached tree.\<close>

fun hintCells :: "rendererDataTree \<Rightarrow> addr list" where
  "hintCells (Content a) = []"
| "hintCells (Hint a) = [a]"
| "hintCells (Tags u) = []"
| "hintCells (Array ts ann) = concat (map hintCells ts)"

text \<open>
  The tree a leaf-wise map describes: \<open>g\<close> of the cell at every content and hint leaf, tags
  leaves as they are, plain arrays.
\<close>

fun mapLeaves :: "(addr \<Rightarrow> 'o) \<Rightarrow> rendererDataTree \<Rightarrow> ('o, 'o, unit, 'a) tree" where
  "mapLeaves g (Content a) = Content (g a)"
| "mapLeaves g (Hint a) = Hint (g a)"
| "mapLeaves g (Tags u) = Tags u"
| "mapLeaves g (Array ts ann) = Array (map (mapLeaves g) ts) None"

section \<open>Reachable components and their invariant\<close>

text \<open>
  A component comes from the constructor; React hands it new props; and React calls the
  \<^verbatim>\<open>ref\<close> closure of a \<^verbatim>\<open><Renderer>\<close> element the component made, with the mounted instance
  or with \<^verbatim>\<open>null\<close>. No method of the component changes it otherwise.
\<close>

inductive reachable :: "multiRenderer \<Rightarrow> bool" where
  constructed: "reachable (constructor p)"
| received: "reachable this \<Longrightarrow> reachable (receiveProps this nextProps)"
| mounted: "reachable this \<Longrightarrow> a < length (heap this) \<Longrightarrow>
     renderer (heap this ! a) = RendererElement rp c d \<Longrightarrow> reachable (refCallback this d e)"

fun isRenderer :: "element \<Rightarrow> bool" where
  "isRenderer (RendererElement rp c d) = True"
| "isRenderer (HintsRendererElement rp hs n) = False"

text \<open>
  A cell at address \<open>a\<close> is as it was built: the closures of a \<^verbatim>\<open><Renderer>\<close> capture the
  cell that holds it, and a hint cell has no back-reference.
\<close>

definition cellOk :: "addr \<Rightarrow> rendererData \<Rightarrow> bool" where
  "cellOk a c =
     (case renderer c of
        RendererElement rp content d \<Rightarrow> d = a
      | HintsRendererElement rp hs n \<Rightarrow> ref c = None)"

definition heapOk :: "rendererData list \<Rightarrow> bool" where
  "heapOk h = (\<forall>a < length h. cellOk a (h ! a))"

text \<open>The leaves of a cached tree are allocated cells of the leaf's kind.\<close>

fun treeOk :: "rendererData list \<Rightarrow> rendererDataTree \<Rightarrow> bool" where
  "treeOk h (Content a) = (a < length h \<and> isRenderer (renderer (h ! a)))"
| "treeOk h (Hint a) = (a < length h \<and> \<not> isRenderer (renderer (h ! a)))"
| "treeOk h (Tags u) = True"
| "treeOk h (Array ts ann) = (\<forall>t \<in> set ts. treeOk h t)"

text \<open>Exactly one of the two fields of the state is non-null.\<close>

definition stateOk :: "state \<Rightarrow> bool" where
  "stateOk st = ((rendererDataTree st \<noteq> None) \<noteq> (renderError st \<noteq> None))"

text \<open>The two fields of the state are never both non-null.\<close>

definition neverBoth :: "state \<Rightarrow> bool" where
  "neverBoth st = (rendererDataTree st = None \<or> renderError st = None)"

definition invariant :: "multiRenderer \<Rightarrow> bool" where
  "invariant this =
     (neverBoth (state this) \<and> heapOk (heap this) \<and>
      (case rendererDataTree (state this) of
         None \<Rightarrow> True
       | Some t \<Rightarrow> treeOk (heap this) t \<and> distinct (cells t)))"

text \<open>
  The cached tree mirrors the item of the props: it has the item's topology. This holds
  of a new component and is kept by every step, a prop update included as long as the same
  item object still holds the same tree (items are immutable snapshots).
\<close>

definition mirrorsItem :: "multiRenderer \<Rightarrow> bool" where
  "mirrorsItem this =
     (case rendererDataTree (state this) of
        None \<Rightarrow> True
      | Some t \<Rightarrow> topology t = topology (multi (item (props this))))"

text \<open>
  The cached tree conforms to the shape of the props, the shape every traversal of it
  uses. This holds of a new component and after every rebuild, and is kept by every step
  that does not change the shape prop alone.
\<close>

definition shapeCurrent :: "multiRenderer \<Rightarrow> bool" where
  "shapeCurrent this =
     (case rendererDataTree (state this) of
        None \<Rightarrow> True
      | Some t \<Rightarrow> conforms t (shape (props this)))"

text \<open>The error a traversal of a tree against a shape throws, if any: the first mismatch.\<close>

fun mismatch :: "('c, 'h, 't, 'a) tree \<Rightarrow> shape \<Rightarrow> path \<Rightarrow> error option"
  and mismatchFrom :: "('c, 'h, 't, 'a) tree list \<Rightarrow> shape \<Rightarrow> path \<Rightarrow> nat \<Rightarrow> error option" where
  "mismatch (Content c) ContentShape p = None"
| "mismatch (Hint h) HintShape p = None"
| "mismatch (Tags t) TagsShape p = None"
| "mismatch (Array ts ann) (ArrayShape es) p = mismatchFrom ts es p 0"
| "mismatch t sh p = Some (ShapeMismatch p)"
| "mismatchFrom [] es p i = None"
| "mismatchFrom (t # ts) es p i =
     (case mismatch t es (p @ [i]) of
        Some e \<Rightarrow> Some e
      | None \<Rightarrow> mismatchFrom ts es p (Suc i))"

section \<open>What each leaf contributes\<close>

text \<open>A cell is mounted when its back-reference is non-null.\<close>

definition mounted :: "multiRenderer \<Rightarrow> addr \<Rightarrow> bool" where
  "mounted this a = (ref (heap this ! a) \<noteq> None)"

text \<open>The widgets the leaf of a cell finds itself: none when the leaf is not mounted.\<close>

definition leafWidgets :: "multiRenderer \<Rightarrow> jsval \<Rightarrow> addr \<Rightarrow> jsval list" where
  "leafWidgets this criterion a =
     (case ref (heap this ! a) of None \<Rightarrow> [] | Some r \<Rightarrow> findInternalWidgets r criterion)"

text \<open>
  The score of one leaf as the spec words it: \<^verbatim>\<open>null\<close> if the back-reference is null, else
  the leaf's own score combined with the guess extracted from the leaf.
\<close>

definition leafScore :: "(jsval \<Rightarrow> jsval \<Rightarrow> jsval) \<Rightarrow> multiRenderer \<Rightarrow> addr \<Rightarrow> jsval" where
  "leafScore ke this a =
     (case ref (heap this ! a) of
        None \<Rightarrow> JNull
      | Some r \<Rightarrow> ke (snd (guessAndScore r)) (fst (guessAndScore r)))"

definition leafSerializedState :: "multiRenderer \<Rightarrow> addr \<Rightarrow> jsval" where
  "leafSerializedState this a =
     (case ref (heap this ! a) of None \<Rightarrow> JNull | Some r \<Rightarrow> instSerializedState r)"

text \<open>The values at the hint leaves of a tree.\<close>

fun hintValues :: "('c, 'h, 't, 'a) tree \<Rightarrow> 'h list" where
  "hintValues (Content c) = []"
| "hintValues (Hint h) = [h]"
| "hintValues (Tags t) = []"
| "hintValues (Array ts ann) = concat (map hintValues ts)"

text \<open>The restorations a call dispatched, in order.\<close>

fun dispatches :: "event list \<Rightarrow> (addr \<times> jsval) list" where
  "dispatches [] = []"
| "dispatches (Dispatched a st # evs) = (a, st) # dispatches evs"
| "dispatches (ev # evs) = dispatches evs"

text \<open>How often the caller's overall callback was invoked.\<close>

definition overallCalls :: "event list \<Rightarrow> nat" where
  "overallCalls evs = length (filter (\<lambda>ev. ev = OverallCallback) evs)"

text \<open>
  What \<^verbatim>\<open>restoreSerializedState\<close> does at one leaf: the body of its leaf mapper, for the cell
  \<open>a\<close> at path \<open>p\<close>.
\<close>

definition restoreLeaf ::
    "multiRenderer \<Rightarrow> jsval \<Rightarrow> bool \<Rightarrow> addr \<Rightarrow> path \<Rightarrow> restoration \<Rightarrow> restoration" where
  "restoreLeaf this serializedState callback a p r =
     (case ref (heap this ! a) of
        None \<Rightarrow> r
      | Some i \<Rightarrow>
          (let st = lens_get serializedState p
           in if \<not> truthy st then r
              else instRestoreSerializedState callback i a st (r\<lparr>numCallbacks := numCallbacks r + 1\<rparr>)))"

definition noRestoration :: restoration where
  "noRestoration = \<lparr>numCallbacks = 0, pending = [], events = []\<rparr>"

text \<open>
  The tree of renderers as the spec describes it: the element of the cell at every leaf,
  and at every array the \<^verbatim>\<open>firstN\<close> capability over the cells of the array exactly when the
  element shape of the array is the hint shape.
\<close>

fun renderersOf :: "multiRenderer \<Rightarrow> rendererDataTree \<Rightarrow> shape \<Rightarrow> rendererTree" where
  "renderersOf this (Content a) sh = Content (renderer (heap this ! a))"
| "renderersOf this (Hint a) sh = Hint (renderer (heap this ! a))"
| "renderersOf this (Tags u) sh = Tags u"
| "renderersOf this (Array ts ann) (ArrayShape es) =
     Array (map (\<lambda>t. renderersOf this t es) ts) (if es = HintShape then Some (FirstN ts) else None)"
| "renderersOf this (Array ts ann) sh = Array [] None"

text \<open>The score and the guess \<open>score\<close> collects at one leaf.\<close>

definition collectedScores :: "multiRenderer \<Rightarrow> addr \<Rightarrow> jsval list" where
  "collectedScores this a = (case ref (heap this ! a) of None \<Rightarrow> [] | Some r \<Rightarrow> [instScore r])"

definition leafGuess :: "multiRenderer \<Rightarrow> addr \<Rightarrow> jsval" where
  "leafGuess this a = (case ref (heap this ! a) of None \<Rightarrow> JNull | Some r \<Rightarrow> getUserInput r)"

text \<open>The leaf of a cell keeps the completion callback for a later tick.\<close>

definition asynchronous :: "multiRenderer \<Rightarrow> addr \<Rightarrow> bool" where
  "asynchronous this a =
     (case ref (heap this ! a) of None \<Rightarrow> True | Some r \<Rightarrow> \<not> restoresSynchronously r)"

text \<open>The leaves a restoration is dispatched to, with their paths: mounted, with a truthy state.\<close>

definition restoredLeaves :: "multiRenderer \<Rightarrow> jsval \<Rightarrow> rendererDataTree \<Rightarrow> (addr \<times> path) list" where
  "restoredLeaves this serializedState t =
     filter (\<lambda>(a, p). mounted this a \<and> truthy (lens_get serializedState p)) (cellPaths t [])"

section \<open>Example components\<close>

text \<open>
  An item of two content nodes with its shape; a second item object that is deeply equal
  to it; an item of two hints; and props whose shape expects a single content leaf where
  the item has an array.
\<close>

definition contentProps :: props where
  "contentProps =
     \<lparr>item = \<lparr>item_ref = 0, multi = Array [Content (JStr ''left''), Content (JStr ''right'')] None\<rparr>,
      shape = ArrayShape ContentShape, otherProps = JNull\<rparr>"

definition equalProps :: props where
  "equalProps =
     \<lparr>item = \<lparr>item_ref = 1, multi = Array [Content (JStr ''left''), Content (JStr ''right'')] None\<rparr>,
      shape = ArrayShape ContentShape, otherProps = JNull\<rparr>"

definition hintProps :: props where
  "hintProps =
     \<lparr>item = \<lparr>item_ref = 2, multi = Array [Hint (JStr ''first hint''), Hint (JStr ''second hint'')] None\<rparr>,
      shape = ArrayShape HintShape, otherProps = JNull\<rparr>"

definition mismatchProps :: props where
  "mismatchProps =
     \<lparr>item = \<lparr>item_ref = 3, multi = Array [Content (JStr ''left''), Content (JStr ''right'')] None\<rparr>,
      shape = ContentShape, otherProps = JNull\<rparr>"

text \<open>
  An item that is a lone tags leaf, with the tags shape; and the props of \<open>contentProps\<close>
  with the same item object under another shape.
\<close>

definition tagsProps :: props where
  "tagsProps =
     \<lparr>item = \<lparr>item_ref = 4, multi = Tags (JArr [JStr ''tag''])\<rparr>,
      shape = TagsShape, otherProps = JNull\<rparr>"


text \<open>
  A mounted renderer with one widget \<open>w\<close>, the score \<open>sc\<close> and the guess \<open>g\<close>, which
  completes a restoration synchronously or not.
\<close>

definition mountedRenderer :: "string \<Rightarrow> jsval \<Rightarrow> jsval \<Rightarrow> bool \<Rightarrow> rendererInstance" where
  "mountedRenderer w sc g sync =
     \<lparr>findInternalWidgets = (\<lambda>criterion. [JStr w]), guessAndScore = (g, sc), instScore = sc,
      getUserInput = g, instSerializedState = JObj [(w, g)], restoresSynchronously = sync\<rparr>"

text \<open>
  The component of \<open>contentProps\<close> with both leaves mounted; the leaves complete a
  restoration synchronously (\<open>sync\<close>) or at a later tick.
\<close>

definition bothMounted :: "bool \<Rightarrow> multiRenderer" where
  "bothMounted sync =
     refCallback
       (refCallback (constructor contentProps) 0 (Some (mountedRenderer ''w0'' (JNum 1) (JStr ''a'') sync)))
       1 (Some (mountedRenderer ''w1'' (JNum 0) (JStr ''b'') sync))"

text \<open>The component of \<open>contentProps\<close> with only the leaf of its first cell mounted.\<close>

definition firstMounted :: multiRenderer where
  "firstMounted =
     refCallback (constructor contentProps) 0 (Some (mountedRenderer ''w0'' (JNum 1) (JStr ''a'') False))"


section \<open>The tree mapper\<close>

lemma upt_split: "i \<le> j \<Longrightarrow> j \<le> k \<Longrightarrow> [i..<j] @ [j..<k] = [i..<(k::nat)]"
  using upt_add_eq_append[of i j "k - j"] by simp

lemma cellPaths_cells:
  "map fst (cellPaths t p) = cells t"
  "map fst (cellPathsFrom ts p i) = concat (map cells ts)"
  by (induction t p and ts p i rule: cellPaths_cellPathsFrom.induct) simp_all

text \<open>The mapper succeeds exactly on the trees that conform to the shape.\<close>

lemma mapTree_conforms:
  "(\<exists>r. mapTree m t sh p s = Inr r) \<longleftrightarrow> conforms t sh"
  "(\<exists>r. mapElements m ts es p i s = Inr r) \<longleftrightarrow> (\<forall>t \<in> set ts. conforms t es)"
  by (induction m t sh p s and m ts es p i s rule: mapTree_mapElements.induct)
     (auto split: sum.splits prod.splits option.splits)

text \<open>The error of a traversal is the first mismatch, whatever the transforms are.\<close>

lemma mapTree_error:
  "(case mapTree m t sh p s of Inl e \<Rightarrow> Some e | Inr r \<Rightarrow> None) = mismatch t sh p"
  "(case mapElements m ts es p i s of Inl e \<Rightarrow> Some e | Inr r \<Rightarrow> None) = mismatchFrom ts es p i"
proof (induction m t sh p s and m ts es p i s rule: mapTree_mapElements.induct)
  case (4 m ts ann es p s)
  then show ?case by (simp split: sum.splits prod.splits option.splits)
next
  case (7 m t ts es p i s)
  show ?case
  proof (cases "mapTree m t es (p @ [i]) s")
    case (Inl e)
    with "7.IH"(1) have "mismatch t es (p @ [i]) = Some e" by simp
    with Inl show ?thesis by simp
  next
    case (Inr b)
    obtain y s' where b: "b = (y, s')" by (cases b)
    from Inr "7.IH"(1) have "mismatch t es (p @ [i]) = None" by simp
    moreover from "7.IH"(2)[OF Inr b[symmetric]]
    have "(case mapElements m ts es p (Suc i) s' of Inl e \<Rightarrow> Some e | Inr r \<Rightarrow> None) =
        mismatchFrom ts es p (Suc i)" .
    ultimately show ?thesis using Inr b by (simp split: sum.splits prod.splits)
  qed
qed (simp_all split: prod.splits)

lemma mapTree_mismatch:
  "mapTree m t sh p s = Inl e \<longleftrightarrow> mismatch t sh p = Some e"
  using mapTree_error(1)[of m t sh p s] by (auto split: sum.splits)

text \<open>
  A mapper whose leaf transform returns a value of the cell alone and updates the state
  from the cell and its path, with no array mapper: the result is the leaf-wise map, and
  the state is updated cell by cell in pre-order.
\<close>

lemma mapTree_leaves:
  fixes m :: "(addr, addr, unit, unit, 'o, 'o, unit, 'a, 's) treeMapper"
  assumes "\<And>a sh p s. contentMapper m a sh p s = (out a, upd a p s)"
    and "\<And>a sh p s. hintMapper m a sh p s = (out a, upd a p s)"
    and "\<And>u sh p s. tagsMapper m u sh p s = (u, s)"
    and "arrayMapper m = None"
  shows "conforms t sh \<Longrightarrow>
           mapTree m t sh p s =
             Inr (mapLeaves out t, foldl (\<lambda>s (a, p). upd a p s) s (cellPaths t p))"
    and "\<forall>t \<in> set ts. conforms t es \<Longrightarrow>
           mapElements m ts es p i s =
             Inr (map (mapLeaves out) ts, foldl (\<lambda>s (a, p). upd a p s) s (cellPathsFrom ts p i))"
  using assms
  by (induction m t sh p s and m ts es p i s rule: mapTree_mapElements.induct) simp_all

section \<open>Building the cached tree\<close>

lemma treeOk_append: "treeOk h t \<Longrightarrow> treeOk (h @ new) t"
  by (induction h t rule: treeOk.induct) (auto simp: nth_append)

text \<open>
  A successful build appends the new cells to the heap, one per content or hint leaf, in
  pre-order; each is well formed and has no back-reference; the tree keeps the topology.
\<close>

lemma build_result:
  "mapTree (rendererDataMapper this) t sh p h = Inr (t', h') \<Longrightarrow>
     (\<exists>new. h' = h @ new \<and> cells t' = [length h..<length h'] \<and> treeOk h' t' \<and>
        topology t' = topology t \<and>
        (\<forall>k < length new. cellOk (length h + k) (new ! k) \<and> ref (new ! k) = None))"
  "mapElements (rendererDataMapper this) ts es p i h = Inr (ts', h') \<Longrightarrow>
     (\<exists>new. h' = h @ new \<and> concat (map cells ts') = [length h..<length h'] \<and>
        (\<forall>t \<in> set ts'. treeOk h' t) \<and> map topology ts' = map topology ts \<and>
        (\<forall>k < length new. cellOk (length h + k) (new ! k) \<and> ref (new ! k) = None))"
proof (induction "rendererDataMapper this" t sh p h and "rendererDataMapper this" ts es p i h
    arbitrary: t' h' and ts' h' rule: mapTree_mapElements.induct)
  case (1 c p s)
  then show ?case
    by (auto simp: rendererDataMapper_def makeContentRendererData_def cellOk_def)
next
  case (2 h p s)
  then show ?case
    by (auto simp: rendererDataMapper_def makeHintRendererData_def cellOk_def)
next
  case (3 t p s)
  then show ?case by (auto simp: rendererDataMapper_def)
next
  case (4 ts ann es p s)
  then show ?case by (auto simp: rendererDataMapper_def split: sum.splits)
next
  case (7 t ts es p i s)
  from "7.prems" obtain y h1 ys where
    y: "mapTree (rendererDataMapper this) t es (p @ [i]) s = Inr (y, h1)"
    and ys: "mapElements (rendererDataMapper this) ts es p (Suc i) h1 = Inr (ys, h')"
    and ts': "ts' = y # ys"
    by (auto split: sum.splits)
  from "7.hyps"(1)[OF y] obtain n1 where n1: "h1 = s @ n1" "cells y = [length s..<length h1]"
    "treeOk h1 y" "topology y = topology t"
    "\<forall>k < length n1. cellOk (length s + k) (n1 ! k) \<and> ref (n1 ! k) = None" by blast
  from "7.hyps"(2)[OF y refl ys] obtain n2 where n2: "h' = h1 @ n2"
    "concat (map cells ys) = [length h1..<length h']"
    "\<forall>t \<in> set ys. treeOk h' t" "map topology ys = map topology ts"
    "\<forall>k < length n2. cellOk (length h1 + k) (n2 ! k) \<and> ref (n2 ! k) = None" by blast
  have a: "h' = s @ (n1 @ n2)" using n1 n2 by simp
  have le: "length s \<le> length h1" "length h1 \<le> length h'" using n1(1) n2(1) by simp_all
  have b: "concat (map cells ts') = [length s..<length h']"
    unfolding ts' using n1(2) n2(2) upt_split[OF le] by simp
  have c: "\<forall>t \<in> set ts'. treeOk h' t" using n1(3) n2(1,3) ts' treeOk_append by auto
  have d: "map topology ts' = map topology (t # ts)" using n1 n2 ts' by simp
  have e: "\<forall>k < length (n1 @ n2).
      cellOk (length s + k) ((n1 @ n2) ! k) \<and> ref ((n1 @ n2) ! k) = None"
  proof (intro allI impI)
    fix k assume k: "k < length (n1 @ n2)"
    show "cellOk (length s + k) ((n1 @ n2) ! k) \<and> ref ((n1 @ n2) ! k) = None"
    proof (cases "k < length n1")
      case True
      then show ?thesis using n1(5) by (simp add: nth_append)
    next
      case False
      then have "k - length n1 < length n2" using k by simp
      with n2(5) have "cellOk (length h1 + (k - length n1)) (n2 ! (k - length n1)) \<and>
          ref (n2 ! (k - length n1)) = None" by blast
      moreover have "length h1 + (k - length n1) = length s + k" using False n1(1) by simp
      ultimately show ?thesis using False by (simp add: nth_append)
    qed
  qed
  from a b c d e show ?case by blast
qed simp_all

lemma heapOk_append:
  assumes "heapOk h" and "\<forall>k < length new. cellOk (length h + k) (new ! k)"
  shows "heapOk (h @ new)"
  unfolding heapOk_def
proof (intro allI impI)
  fix a assume a: "a < length (h @ new)"
  show "cellOk a ((h @ new) ! a)"
  proof (cases "a < length h")
    case True
    then show ?thesis using assms(1) by (simp add: heapOk_def nth_append)
  next
    case False
    then have "a - length h < length new" using a by simp
    with assms(2) have "cellOk (length h + (a - length h)) (new ! (a - length h))" by blast
    then show ?thesis using False by (simp add: nth_append)
  qed
qed

lemma nullableTree_Some: "nullableTree t = Some t' \<Longrightarrow> t' = t"
  by (cases t) simp_all

lemma nullableTree_None: "nullableTree t = None \<longleftrightarrow> topology t = TagsLeaf"
  by (cases t) simp_all

lemma nullableTree_not_tags: "topology t \<noteq> TagsLeaf \<Longrightarrow> nullableTree t = Some t"
  by (cases t) simp_all

text \<open>What \<^verbatim>\<open>_tryMakeRendererState\<close> returns, in its two cases.\<close>

lemma tryMake_cases:
  "(\<exists>t new. makeRendererDataTree this (item p) (shape p) (heap this) = Inr (t, heap this @ new) \<and>
       tryMakeRendererState this p =
         (\<lparr>rendererDataTree = nullableTree t, renderError = None\<rparr>,
          this\<lparr>heap := heap this @ new\<rparr>) \<and>
       cells t = [length (heap this)..<length (heap this) + length new] \<and>
       treeOk (heap this @ new) t \<and> topology t = topology (multi (item p)) \<and>
       (\<forall>k < length new. cellOk (length (heap this) + k) (new ! k) \<and> ref (new ! k) = None)) \<or>
   (\<exists>e. makeRendererDataTree this (item p) (shape p) (heap this) = Inl e \<and>
       tryMakeRendererState this p =
         (\<lparr>rendererDataTree = None, renderError = Some e\<rparr>, this\<lparr>console := console this @ [e]\<rparr>))"
proof (cases "makeRendererDataTree this (item p) (shape p) (heap this)")
  case (Inl e)
  then show ?thesis by (simp add: tryMakeRendererState_def)
next
  case (Inr r)
  obtain t h' where r: "r = (t, h')" by (cases r)
  from Inr r build_result(1)[of this "multi (item p)" "shape p" "[]" "heap this" t h']
  obtain new where "h' = heap this @ new" "cells t = [length (heap this)..<length h']"
    "treeOk h' t" "topology t = topology (multi (item p))"
    "\<forall>k < length new. cellOk (length (heap this) + k) (new ! k) \<and> ref (new ! k) = None"
    by (auto simp: makeRendererDataTree_def itemToTree_def)
  with Inr r show ?thesis by (auto simp: tryMakeRendererState_def)
qed

lemma tryMake_invariant:
  assumes "heapOk (heap this)" and "tryMakeRendererState this p = (st, this')"
  shows "invariant (this'\<lparr>state := st\<rparr>)"
proof -
  from tryMake_cases[of this p] show ?thesis
  proof (elim disjE exE conjE)
    fix t new
    assume r: "tryMakeRendererState this p =
        (\<lparr>rendererDataTree = nullableTree t, renderError = None\<rparr>, this\<lparr>heap := heap this @ new\<rparr>)"
      and ok: "treeOk (heap this @ new) t"
      and cs: "cells t = [length (heap this)..<length (heap this) + length new]"
      and new: "\<forall>k < length new. cellOk (length (heap this) + k) (new ! k) \<and> ref (new ! k) = None"
    from new have "heapOk (heap this @ new)" by (intro heapOk_append assms(1)) blast
    moreover from cs have "distinct (cells t)" by simp
    ultimately show ?thesis using r ok assms(2)
      by (auto simp: invariant_def neverBoth_def split: option.splits dest: nullableTree_Some)
  next
    fix e
    assume "tryMakeRendererState this p =
        (\<lparr>rendererDataTree = None, renderError = Some e\<rparr>, this\<lparr>console := console this @ [e]\<rparr>)"
    with assms show ?thesis by (auto simp: invariant_def neverBoth_def)
  qed
qed

lemma renderer_ref_update:
  "b < length h \<Longrightarrow> renderer (h[a := (h ! a)\<lparr>ref := e\<rparr>] ! b) = renderer (h ! b)"
  by (cases "a = b") simp_all

lemma treeOk_ref_update: "treeOk h t \<Longrightarrow> treeOk (h[a := (h ! a)\<lparr>ref := e\<rparr>]) t"
  by (induction h t rule: treeOk.induct) (auto simp: renderer_ref_update)

lemma refCallback_invariant:
  assumes "invariant this" and "a < length (heap this)"
    and "renderer (heap this ! a) = RendererElement rp c d"
  shows "invariant (refCallback this d e)"
proof -
  from assms have d: "d = a" by (auto simp: invariant_def heapOk_def cellOk_def)
  have "heapOk ((heap this)[a := (heap this ! a)\<lparr>ref := e\<rparr>])"
    using assms by (auto simp: invariant_def heapOk_def cellOk_def nth_list_update)
  then show ?thesis
    using assms(1) d by (auto simp: invariant_def refCallback_def treeOk_ref_update split: option.splits)
qed

lemma constructor_invariant: "invariant (constructor p)"
proof -
  let ?c = "\<lparr>props = p, state = \<lparr>rendererDataTree = None, renderError = None\<rparr>,
              heap = [], console = []\<rparr>"
  obtain st c' where t: "tryMakeRendererState ?c p = (st, c')"
    by (cases "tryMakeRendererState ?c p")
  have "heapOk (heap ?c)" by (simp add: heapOk_def)
  from tryMake_invariant[OF this t] t show ?thesis by (simp add: constructor_def)
qed

lemma receiveProps_invariant:
  assumes "invariant this"
  shows "invariant (receiveProps this nextProps)"
proof (cases "item_ref (item nextProps) = item_ref (item (props this))")
  case True
  with assms show ?thesis
    by (simp add: receiveProps_def componentWillReceiveProps_def invariant_def split: option.splits)
next
  case False
  obtain st this' where t: "tryMakeRendererState this nextProps = (st, this')"
    by (cases "tryMakeRendererState this nextProps")
  from assms have "heapOk (heap this)" by (simp add: invariant_def)
  from tryMake_invariant[OF this t] have "invariant (this'\<lparr>state := st\<rparr>)" .
  then have "invariant (this'\<lparr>state := st, props := nextProps\<rparr>)"
    by (simp add: invariant_def split: option.splits)
  with False t show ?thesis by (simp add: receiveProps_def componentWillReceiveProps_def)
qed

lemma tryMake_mirrors:
  assumes "tryMakeRendererState this p = (st, this')"
  shows "mirrorsItem (this'\<lparr>state := st, props := p\<rparr>)"
  using tryMake_cases[of this p] assms
  by (auto simp: mirrorsItem_def split: option.splits dest: nullableTree_Some)


lemma receiveProps_mirrors:
  assumes "mirrorsItem this"
    and "item_ref (item nextProps) = item_ref (item (props this)) \<Longrightarrow>
           multi (item nextProps) = multi (item (props this))"
  shows "mirrorsItem (receiveProps this nextProps)"
proof (cases "item_ref (item nextProps) = item_ref (item (props this))")
  case True
  with assms show ?thesis
    by (simp add: receiveProps_def componentWillReceiveProps_def mirrorsItem_def
        split: option.splits)
next
  case False
  obtain st this' where t: "tryMakeRendererState this nextProps = (st, this')"
    by (cases "tryMakeRendererState this nextProps")
  from tryMake_mirrors[OF t] False t show ?thesis
    by (simp add: receiveProps_def componentWillReceiveProps_def)
qed


text \<open>A built tree conforms to the shape it was built with.\<close>

lemma mapTree_result_conforms:
  "mapTree m t sh p s = Inr (t', s') \<Longrightarrow> arrayMapper m = None \<Longrightarrow> conforms t' sh"
  "mapElements m ts es p i s = Inr (ts', s') \<Longrightarrow> arrayMapper m = None \<Longrightarrow>
     \<forall>t \<in> set ts'. conforms t es"
  by (induction m t sh p s and m ts es p i s arbitrary: t' s' and ts' s'
      rule: mapTree_mapElements.induct)
     (auto split: sum.splits prod.splits)

lemma tryMake_shapeCurrent:
  assumes "tryMakeRendererState this p = (st, this')"
  shows "shapeCurrent (this'\<lparr>state := st, props := p\<rparr>)"
proof (cases "makeRendererDataTree this (item p) (shape p) (heap this)")
  case (Inl e)
  with assms show ?thesis by (auto simp: tryMakeRendererState_def shapeCurrent_def)
next
  case (Inr r)
  obtain t h' where r: "r = (t, h')" by (cases r)
  from Inr r have "mapTree (rendererDataMapper this) (itemToTree (item p)) (shape p) []
      (heap this) = Inr (t, h')"
    by (simp add: makeRendererDataTree_def)
  then have "conforms t (shape p)"
    by (rule mapTree_result_conforms(1)) (simp add: rendererDataMapper_def)
  with Inr r assms show ?thesis
    by (auto simp: tryMakeRendererState_def shapeCurrent_def split: option.splits
        dest: nullableTree_Some)
qed

lemma tryMake_conforms:
  assumes "rendererDataTree (fst (tryMakeRendererState c p)) = Some t"
  shows "conforms t (shape p)"
proof -
  obtain st c' where t: "tryMakeRendererState c p = (st, c')"
    by (cases "tryMakeRendererState c p")
  from tryMake_shapeCurrent[OF t] assms t show ?thesis by (simp add: shapeCurrent_def)
qed

lemma constructor_shapeCurrent: "shapeCurrent (constructor p)"
proof -
  let ?c = "\<lparr>props = p, state = \<lparr>rendererDataTree = None, renderError = None\<rparr>,
              heap = [], console = []\<rparr>"
  obtain st c' where t: "tryMakeRendererState ?c p = (st, c')"
    by (cases "tryMakeRendererState ?c p")
  from tryMake_cases[of ?c p] t have "props c' = p" by auto
  with tryMake_shapeCurrent[OF t] t show ?thesis
    by (simp add: constructor_def shapeCurrent_def split: option.splits)
qed

lemma receiveProps_shapeCurrent:
  assumes "shapeCurrent this"
    and "item_ref (item nextProps) = item_ref (item (props this)) \<Longrightarrow>
           shape nextProps = shape (props this)"
  shows "shapeCurrent (receiveProps this nextProps)"
proof (cases "item_ref (item nextProps) = item_ref (item (props this))")
  case True
  with assms show ?thesis
    by (simp add: receiveProps_def componentWillReceiveProps_def shapeCurrent_def
        split: option.splits)
next
  case False
  obtain st this' where t: "tryMakeRendererState this nextProps = (st, this')"
    by (cases "tryMakeRendererState this nextProps")
  from tryMake_shapeCurrent[OF t] False t show ?thesis
    by (simp add: receiveProps_def componentWillReceiveProps_def)
qed

lemma refCallback_shapeCurrent: "shapeCurrent this \<Longrightarrow> shapeCurrent (refCallback this d e)"
  by (simp add: shapeCurrent_def refCallback_def split: option.splits)

lemma reachable_invariant: "reachable this \<Longrightarrow> invariant this"
  by (induction rule: reachable.induct)
     (auto intro: constructor_invariant receiveProps_invariant refCallback_invariant)

section \<open>Traversals of the cached tree\<close>

lemma mapRenderers_errored:
  "rendererDataTree (state this) = None \<Longrightarrow> mapRenderers this f am s = Inr (None, s)"
  by (simp add: mapRenderers_def)

lemma mapRenderers_leaves:
  assumes "rendererDataTree (state this) = Some t" and "conforms t (shape (props this))"
  shows "mapRenderers this (\<lambda>a sh p s. (out a, upd a p s)) None s =
           Inr (Some (mapLeaves out t), foldl (\<lambda>s (a, p). upd a p s) s (cellPaths t []))"
  using assms
  by (simp add: mapRenderers_def mapTree_leaves(1)[where out = out and upd = upd])

lemma mapRenderers_returns:
  assumes "mapRenderers this f am s = Inr r" and "rendererDataTree (state this) = Some t"
  shows "conforms t (shape (props this))"
proof -
  from assms have "\<exists>r. mapTree \<lparr>contentMapper = f, hintMapper = f,
      tagsMapper = (\<lambda>t _ _ s. (t, s)), arrayMapper = am\<rparr> t (shape (props this)) [] s = Inr r"
    by (auto simp: mapRenderers_def split: sum.splits)
  then show ?thesis by (simp only: mapTree_conforms)
qed


lemma hintValues_mapLeaves: "hintValues (mapLeaves g t) = map g (hintCells t)"
  by (induction t) (simp_all add: map_concat cong: map_cong)

lemma foldl_append_concat:
  "foldl (\<lambda>s (a, p). s @ g a) s xs = s @ concat (map g (map fst xs))"
  by (induction xs arbitrary: s) auto

lemma concat_map_filter:
  "concat (map (\<lambda>a. if P a then f a else []) xs) = concat (map f (filter P xs))"
  by (induction xs) auto

text \<open>The hint leaves of the cached tree of a reachable component are not mounted.\<close>

lemma hint_cell_null: "cellOk a c \<Longrightarrow> \<not> isRenderer (renderer c) \<Longrightarrow> ref c = None"
  by (cases "renderer c") (simp_all add: cellOk_def)

lemma hintCells_null:
  "heapOk h \<Longrightarrow> treeOk h t \<Longrightarrow> a \<in> set (hintCells t) \<Longrightarrow> ref (h ! a) = None"
  by (induction h t rule: treeOk.induct) (auto simp: heapOk_def intro: hint_cell_null)

lemma reachable_hintCells:
  assumes "reachable this" and "rendererDataTree (state this) = Some t"
    and "a \<in> set (hintCells t)"
  shows "ref (heap this ! a) = None"
  using reachable_invariant[OF assms(1)] assms(2,3)
  by (auto simp: invariant_def intro: hintCells_null)

section \<open>Widget discovery\<close>

lemma findWidgets_eq:
  assumes "rendererDataTree (state this) = Some t" and "conforms t (shape (props this))"
  shows "findWidgets this callingData criterion =
           Inr (concat (map (leafWidgets this criterion)
                  (filter (\<lambda>a. a \<noteq> callingData \<and> mounted this a) (cells t))))"
proof -
  let ?g = "\<lambda>a. if a \<noteq> callingData \<and> mounted this a then leafWidgets this criterion a else []"
  have f: "(\<lambda>data (sh :: shape) (p :: path) results.
             ((), case ref (heap this ! data) of
                    Some r \<Rightarrow>
                      if callingData \<noteq> data
                      then results @ findInternalWidgets r criterion
                      else results
                  | None \<Rightarrow> results)) =
           (\<lambda>a sh p s. ((), s @ ?g a))"
    by (auto simp: fun_eq_iff mounted_def leafWidgets_def split: option.splits)
  show ?thesis
    unfolding findWidgets_def f
    by (simp add: mapRenderers_leaves[OF assms] foldl_append_concat cellPaths_cells
        concat_map_filter)
qed

section \<open>Restoring serialized state\<close>

lemma restore_errored:
  "rendererDataTree (state this) = None \<Longrightarrow>
     restoreSerializedState this serializedState callback = Inr noRestoration"
  by (simp add: restoreSerializedState_def mapRenderers_errored noRestoration_def)

lemma restore_eq:
  assumes "rendererDataTree (state this) = Some t" and "conforms t (shape (props this))"
  shows "restoreSerializedState this serializedState callback =
           Inr (foldl (\<lambda>r (a, p). restoreLeaf this serializedState callback a p r)
                  noRestoration (cellPaths t []))"
proof -
  have f: "(\<lambda>data (sh :: shape) path r.
             ((), case ref (heap this ! data) of
                    None \<Rightarrow> r
                  | Some i \<Rightarrow>
                      (let st = lens_get serializedState path
                       in if \<not> truthy st then r
                          else instRestoreSerializedState callback i data st
                                 (r\<lparr>numCallbacks := numCallbacks r + 1\<rparr>)))) =
           (\<lambda>a sh p r. ((), restoreLeaf this serializedState callback a p r))"
    by (simp add: fun_eq_iff restoreLeaf_def)
  show ?thesis
    unfolding restoreSerializedState_def f
    by (simp add: mapRenderers_leaves[OF assms] noRestoration_def)
qed

lemma restore_returns:
  assumes "restoreSerializedState this serializedState callback = Inr r"
  shows "(rendererDataTree (state this) = None \<and> r = noRestoration) \<or>
         (\<exists>t. rendererDataTree (state this) = Some t \<and> conforms t (shape (props this)) \<and>
            r = foldl (\<lambda>r (a, p). restoreLeaf this serializedState callback a p r)
                  noRestoration (cellPaths t []))"
proof (cases "rendererDataTree (state this)")
  case None
  with assms restore_errored[OF None, of serializedState callback] show ?thesis by simp
next
  case (Some t)
  from assms have "\<exists>r'. mapRenderers this
      (\<lambda>data _ path r.
         ((), case ref (heap this ! data) of
                None \<Rightarrow> r
              | Some i \<Rightarrow>
                  (let st = lens_get serializedState path
                   in if \<not> truthy st then r
                      else instRestoreSerializedState callback i data st
                             (r\<lparr>numCallbacks := numCallbacks r + 1\<rparr>))))
      (None :: (rendererDataTree, (unit, unit, unit, unit) tree, unit) arrayMapper option)
      \<lparr>numCallbacks = 0, pending = [], events = []\<rparr> = Inr r'"
    by (auto simp: restoreSerializedState_def split: sum.splits)
  then obtain r' where "mapRenderers this
      (\<lambda>data _ path r.
         ((), case ref (heap this ! data) of
                None \<Rightarrow> r
              | Some i \<Rightarrow>
                  (let st = lens_get serializedState path
                   in if \<not> truthy st then r
                      else instRestoreSerializedState callback i data st
                             (r\<lparr>numCallbacks := numCallbacks r + 1\<rparr>))))
      (None :: (rendererDataTree, (unit, unit, unit, unit) tree, unit) arrayMapper option)
      \<lparr>numCallbacks = 0, pending = [], events = []\<rparr> = Inr r'" ..
  from mapRenderers_returns[OF this Some] have c: "conforms t (shape (props this))" .
  from restore_eq[OF Some c, of serializedState callback] assms Some c show ?thesis by simp
qed

lemma dispatches_append: "dispatches (xs @ ys) = dispatches xs @ dispatches ys"
  by (induction xs rule: dispatches.induct) simp_all

text \<open>
  One leaf: nothing happens at a leaf that is not mounted or has no truthy state at its
  path; otherwise exactly one restoration is dispatched, to that mounted leaf with that
  state.
\<close>

lemma restoreLeaf_skip:
  "\<not> mounted this a \<or> \<not> truthy (lens_get serializedState p) \<Longrightarrow>
     restoreLeaf this serializedState callback a p r = r"
  by (auto simp: restoreLeaf_def mounted_def split: option.splits)

lemma restoreLeaf_dispatches:
  "dispatches (events (restoreLeaf this serializedState callback a p r)) =
     dispatches (events r) @
       (if mounted this a \<and> truthy (lens_get serializedState p)
        then [(a, lens_get serializedState p)] else [])"
  by (auto simp: restoreLeaf_def mounted_def instRestoreSerializedState_def leafCompletes_def
      countCallback_def Let_def dispatches_append split: option.splits)

lemma restore_fold_dispatches:
  "dispatches (events (foldl (\<lambda>r (a, p). restoreLeaf this serializedState callback a p r) r xs)) =
     dispatches (events r) @
       map (\<lambda>(a, p). (a, lens_get serializedState p))
         (filter (\<lambda>(a, p). mounted this a \<and> truthy (lens_get serializedState p)) xs)"
  by (induction xs arbitrary: r) (auto simp: restoreLeaf_dispatches split: if_splits)

lemma restore_fold_skip:
  "\<forall>(a, p) \<in> set xs. \<not> mounted this a \<or> \<not> truthy (lens_get serializedState p) \<Longrightarrow>
     foldl (\<lambda>r (a, p). restoreLeaf this serializedState callback a p r) r xs = r"
  by (induction xs arbitrary: r) (auto simp: restoreLeaf_skip)

lemma laterCompletions_none: "pending r = [] \<Longrightarrow> laterCompletions callback as r = r"
  by (induction as) (simp_all add: laterCompletions_def completeLater_def)

section \<open>Scores and serialized state, leaf by leaf\<close>

lemma scoreFromRef_leafScore: "scoreFromRef ke (ref (heap this ! a)) = leafScore ke this a"
  by (simp add: scoreFromRef_def leafScore_def split: option.splits prod.splits)

lemma getScores_eq:
  assumes "rendererDataTree (state this) = Some t" and "conforms t (shape (props this))"
  shows "getScores ke this = Inr (Some (mapLeaves (leafScore ke this) t))"
proof -
  have "mapRenderers this (\<lambda>a sh p s. (leafScore ke this a, s)) None () =
      Inr (Some (mapLeaves (leafScore ke this) t :: valueTree),
           foldl (\<lambda>s (a, p). s) () (cellPaths t []))"
    by (rule mapRenderers_leaves[OF assms])
  then show ?thesis by (simp add: getScores_def scoreFromRef_leafScore)
qed

lemma getSerializedState_eq:
  assumes "rendererDataTree (state this) = Some t" and "conforms t (shape (props this))"
  shows "getSerializedState this = Inr (Some (mapLeaves (leafSerializedState this) t))"
proof -
  have "mapRenderers this (\<lambda>a sh p s. (leafSerializedState this a, s)) None () =
      Inr (Some (mapLeaves (leafSerializedState this) t :: valueTree),
           foldl (\<lambda>s (a, p). s) () (cellPaths t []))"
    by (rule mapRenderers_leaves[OF assms])
  then show ?thesis by (simp add: getSerializedState_def leafSerializedState_def)
qed

section \<open>The tree of renderers\<close>

lemma annotate_fresh:
  "annotateRendererArray [\<lparr>elems = rs, firstNProp = None\<rparr>] 0 rds (ArrayShape es) =
     (if es = HintShape
      then ([\<lparr>elems = rs, firstNProp = None\<rparr>, \<lparr>elems = rs, firstNProp = Some (FirstN rds)\<rparr>], 1)
      else ([\<lparr>elems = rs, firstNProp = None\<rparr>], 0))"
  by (cases es) (simp_all add: annotateRendererArray_def)

lemma getRenderers_mapTree:
  fixes m :: "(addr, addr, unit, unit, element, element, unit, firstN, unit) treeMapper"
  assumes "\<And>a sh p s. contentMapper m a sh p s = (renderer (heap this ! a), s)"
    and "\<And>a sh p s. hintMapper m a sh p s = (renderer (heap this ! a), s)"
    and "\<And>u sh p s. tagsMapper m u sh p s = (u, s)"
    and "arrayMapper m = Some (\<lambda>rs rds s p.
           case annotateRendererArray [\<lparr>elems = rs, firstNProp = None\<rparr>] 0 rds s of
             (arrays, r) \<Rightarrow> (elems (arrays ! r), firstNProp (arrays ! r)))"
  shows "conforms t sh \<Longrightarrow> mapTree m t sh p s = Inr (renderersOf this t sh, s)"
    and "\<forall>t \<in> set ts. conforms t es \<Longrightarrow>
           mapElements m ts es p i s = Inr (map (\<lambda>t. renderersOf this t es) ts, s)"
  using assms
  by (induction m t sh p s and m ts es p i s rule: mapTree_mapElements.induct)
     (simp_all add: annotate_fresh)

lemma getRenderers_eq:
  assumes "rendererDataTree (state this) = Some t" and "conforms t (shape (props this))"
  shows "getRenderers this = Inr (Some (renderersOf this t (shape (props this))))"
  using assms
  by (simp add: getRenderers_def mapRenderers_def getRenderers_mapTree(1)[where this = this])

lemma hintCells_treeOk:
  "treeOk h t \<Longrightarrow> a \<in> set (hintCells t) \<Longrightarrow> a < length h \<and> \<not> isRenderer (renderer (h ! a))"
  by (induction h t rule: treeOk.induct) auto

section \<open>The composite score in general\<close>

text \<open>
  \<open>score\<close> reduces the scores of the mounted leaves in pre-order and converts the result
  with the tree of guesses; with no score collected it throws.
\<close>

lemma score_eq:
  assumes "rendererDataTree (state this) = Some t" and "conforms t (shape (props this))"
  shows "score combine ke this =
           (case reduce combine (concat (map (collectedScores this) (cells t))) of
              Inl e \<Rightarrow> Inl e
            | Inr s \<Rightarrow> Inr (ke s (treeToValue (mapLeaves (leafGuess this) t :: valueTree))))"
proof -
  have f: "(\<lambda>data (sh :: shape) (p :: path) scores.
             case ref (heap this ! data) of
               None \<Rightarrow> (JNull, scores)
             | Some r \<Rightarrow> (getUserInput r, scores @ [instScore r])) =
           (\<lambda>a sh p s. (leafGuess this a, s @ collectedScores this a))"
    by (auto simp: fun_eq_iff leafGuess_def collectedScores_def split: option.splits)
  show ?thesis
    unfolding score_def f
    by (simp add: mapRenderers_leaves[OF assms] foldl_append_concat cellPaths_cells
        split: sum.splits)
qed

lemma score_errored:
  "rendererDataTree (state this) = None \<Longrightarrow>
     score combine ke this = Inl (TypeError ''Reduce of empty array with no initial value'')"
  by (simp add: score_def mapRenderers_errored)

lemma score_unmounted:
  assumes "rendererDataTree (state this) = Some t" and "conforms t (shape (props this))"
    and "\<forall>a \<in> set (cells t). \<not> mounted this a"
  shows "score combine ke this = Inl (TypeError ''Reduce of empty array with no initial value'')"
proof -
  from assms(3) have c: "concat (map (collectedScores this) (cells t)) = []"
    by (auto simp: collectedScores_def mounted_def)
  show ?thesis unfolding score_eq[OF assms(1,2)] c by simp
qed

section \<open>Restorations that complete at a later tick\<close>

text \<open>
  When every leaf a restoration is dispatched to keeps the callback for later, the call
  dispatches to exactly the mounted leaves with a truthy state, in pre-order, counts them
  all and invokes nothing.
\<close>

lemma restore_fold_async:
  assumes "\<forall>(a, p) \<in> set xs. asynchronous this a"
  shows "foldl (\<lambda>r (a, p). restoreLeaf this serializedState callback a p r) r xs =
           \<lparr>numCallbacks = numCallbacks r +
              int (length (filter (\<lambda>(a, p). mounted this a \<and> truthy (lens_get serializedState p)) xs)),
            pending = pending r @
              map fst (filter (\<lambda>(a, p). mounted this a \<and> truthy (lens_get serializedState p)) xs),
            events = events r @
              map (\<lambda>(a, p). Dispatched a (lens_get serializedState p))
                (filter (\<lambda>(a, p). mounted this a \<and> truthy (lens_get serializedState p)) xs)\<rparr>"
  using assms
proof (induction xs arbitrary: r)
  case Nil
  then show ?case by simp
next
  case (Cons x xs)
  obtain a p where x: "x = (a, p)" by (cases x)
  from Cons.prems x have async: "asynchronous this a" and rest: "\<forall>(a, p) \<in> set xs. asynchronous this a"
    by simp_all
  show ?case
  proof (cases "mounted this a \<and> truthy (lens_get serializedState p)")
    case True
    with async have "restoreLeaf this serializedState callback a p r =
        \<lparr>numCallbacks = numCallbacks r + 1, pending = pending r @ [a],
         events = events r @ [Dispatched a (lens_get serializedState p)]\<rparr>"
      by (auto simp: restoreLeaf_def mounted_def asynchronous_def instRestoreSerializedState_def
          Let_def)
    with True x show ?thesis by (simp add: Cons.IH[OF rest])
  next
    case False
    then have "restoreLeaf this serializedState callback a p r = r"
      by (intro restoreLeaf_skip) blast
    with False x show ?thesis by (simp add: Cons.IH[OF rest])
  qed
qed

lemma restore_async:
  assumes "rendererDataTree (state this) = Some t" and "conforms t (shape (props this))"
    and "\<forall>(a, p) \<in> set (cellPaths t []). asynchronous this a"
  shows "restoreSerializedState this serializedState callback =
           Inr \<lparr>numCallbacks = int (length (restoredLeaves this serializedState t)),
                pending = map fst (restoredLeaves this serializedState t),
                events = map (\<lambda>(a, p). Dispatched a (lens_get serializedState p))
                           (restoredLeaves this serializedState t)\<rparr>"
  by (simp add: restore_eq[OF assms(1,2)] restore_fold_async[OF assms(3)] noRestoration_def
      restoredLeaves_def)

text \<open>
  The pending leaves then complete in any order, each once: the overall callback is
  invoked exactly once, by the last completion.
\<close>

lemma laterCompletions_once:
  assumes "numCallbacks r = int (length (pending r))" and "distinct (pending r)"
    and "distinct as" and "set as = set (pending r)" and "as \<noteq> []"
  shows "laterCompletions callback as r =
           \<lparr>numCallbacks = 0, pending = [],
            events = events r @ map LeafCompleted as @ (if callback then [OverallCallback] else [])\<rparr>"
  using assms
proof (induction as arbitrary: r)
  case Nil
  then show ?case by simp
next
  case (Cons a as)
  let ?r1 = "completeLater callback a r"
  from Cons.prems have a: "a \<in> set (pending r)" by auto
  from Cons.prems have len: "length (pending r) = Suc (length as)"
    by (metis distinct_card length_Cons)
  have p1: "pending ?r1 = remove1 a (pending r)"
    using a by (simp add: completeLater_def leafCompletes_def countCallback_def Let_def)
  have n1: "numCallbacks ?r1 = int (length as)"
    using a Cons.prems(1) len
    by (simp add: completeLater_def leafCompletes_def countCallback_def Let_def)
  have e1: "events ?r1 =
      events r @ [LeafCompleted a] @ (if callback \<and> as = [] then [OverallCallback] else [])"
    using a Cons.prems(1) len
    by (simp add: completeLater_def leafCompletes_def countCallback_def Let_def)
  have s1: "set as = set (pending ?r1)" "distinct (pending ?r1)"
    using Cons.prems(2,3,4) p1 by auto
  have l1: "length (pending ?r1) = length as"
    using p1 a len by (simp add: length_remove1)
  show ?case
  proof (cases "as = []")
    case True
    with l1 have "pending ?r1 = []" by simp
    with True n1 e1 show ?thesis by (simp add: laterCompletions_def)
  next
    case False
    from Cons.prems(3) have "distinct as" by simp
    from Cons.IH[OF _ s1(2) this s1(1) False] n1 l1
    have "laterCompletions callback as ?r1 =
        \<lparr>numCallbacks = 0, pending = [],
         events = events ?r1 @ map LeafCompleted as @ (if callback then [OverallCallback] else [])\<rparr>"
      by simp
    with False e1 show ?thesis by (simp add: laterCompletions_def)
  qed
qed

lemma dispatches_map:
  "dispatches (map (\<lambda>(a, p). Dispatched a (f p)) xs) = map (\<lambda>(a, p). (a, f p)) xs"
  by (induction xs) auto

lemma overallCalls_map: "overallCalls (map (\<lambda>(a, p). Dispatched a (f p)) xs) = 0"
  by (simp add: overallCalls_def filter_empty_conv split: prod.splits)

lemma restore_async_exactly_once:
  assumes "reachable this" and "rendererDataTree (state this) = Some t"
    and "conforms t (shape (props this))"
    and "\<forall>(a, p) \<in> set (cellPaths t []). asynchronous this a"
    and "restoredLeaves this serializedState t \<noteq> []"
    and "distinct as" and "set as = set (map fst (restoredLeaves this serializedState t))"
  shows "\<exists>r. restoreSerializedState this serializedState True = Inr r \<and>
           dispatches (events r) =
             map (\<lambda>(a, p). (a, lens_get serializedState p)) (restoredLeaves this serializedState t) \<and>
           overallCalls (events r) = 0 \<and>
           events (laterCompletions True as r) = events r @ map LeafCompleted as @ [OverallCallback]"
proof -
  let ?d = "restoredLeaves this serializedState t"
  let ?r = "\<lparr>numCallbacks = int (length ?d), pending = map fst ?d,
             events = map (\<lambda>(a, p). Dispatched a (lens_get serializedState p)) ?d\<rparr>"
  have r: "restoreSerializedState this serializedState True = Inr ?r"
    by (rule restore_async[OF assms(2,3,4)])
  from reachable_invariant[OF assms(1)] assms(2) have "distinct (cells t)"
    by (simp add: invariant_def)
  then have "distinct (map fst (cellPaths t []))" by (simp add: cellPaths_cells)
  then have d: "distinct (map fst ?d)" unfolding restoredLeaves_def by (rule distinct_map_filter)
  have ne: "as \<noteq> []" using assms(5,7) by auto
  have "laterCompletions True as ?r =
      \<lparr>numCallbacks = 0, pending = [],
       events = events ?r @ map LeafCompleted as @ (if True then [OverallCallback] else [])\<rparr>"
    by (rule laterCompletions_once) (use d assms(6,7) ne in simp_all)
  moreover have "dispatches (events ?r) = map (\<lambda>(a, p). (a, lens_get serializedState p)) ?d"
    by (simp add: dispatches_map)
  moreover have "overallCalls (events ?r) = 0"
    by (simp add: overallCalls_map)
  ultimately show ?thesis using r by simp
qed

section \<open>The state of the component\<close>

lemma render_errored: "renderError (state c) = Some e \<Longrightarrow> render c = Inr (ErrorDiv e)"
  by (simp add: render_def)

lemma makeRendererDataTree_error:
  "makeRendererDataTree this itm sh h = Inl e \<longleftrightarrow> mismatch (multi itm) sh [] = Some e"
  by (simp add: makeRendererDataTree_def itemToTree_def mapTree_mismatch)

lemma tryMake_error:
  "mismatch (multi (item p)) (shape p) [] = Some e \<Longrightarrow>
     tryMakeRendererState this p =
       (\<lparr>rendererDataTree = None, renderError = Some e\<rparr>, this\<lparr>console := console this @ [e]\<rparr>)"
  using makeRendererDataTree_error[of this "item p" "shape p" "heap this" e]
  by (simp add: tryMakeRendererState_def)

lemma cells_allocated: "treeOk h t \<Longrightarrow> a \<in> set (cells t) \<Longrightarrow> a < length h"
  by (induction h t rule: treeOk.induct) auto

lemmas step_defs =
  receiveProps_def componentWillReceiveProps_def tryMakeRendererState_def
  makeRendererDataTree_def rendererDataMapper_def makeContentRendererData_def
  makeHintRendererData_def getRendererProps_def itemToTree_def refCallback_def

lemmas build_defs = constructor_def step_defs

lemmas example_defs = contentProps_def equalProps_def hintProps_def mismatchProps_def

lemma constructor_contentProps:
  "constructor contentProps =
     \<lparr>props = contentProps,
      state = \<lparr>rendererDataTree = Some (Array [Content 0, Content 1] None), renderError = None\<rparr>,
      heap = [\<lparr>renderer = RendererElement JNull (JStr ''left'') 0, ref = None, hint = JUndefined\<rparr>,
              \<lparr>renderer = RendererElement JNull (JStr ''right'') 1, ref = None, hint = JUndefined\<rparr>],
      console = []\<rparr>"
  by (simp add: build_defs contentProps_def)

lemma constructor_hintProps:
  "constructor hintProps =
     \<lparr>props = hintProps,
      state = \<lparr>rendererDataTree = Some (Array [Hint 0, Hint 1] None), renderError = None\<rparr>,
      heap = [\<lparr>renderer = HintsRendererElement JNull [JStr ''first hint''] None, ref = None,
                hint = JStr ''first hint''\<rparr>,
              \<lparr>renderer = HintsRendererElement JNull [JStr ''second hint''] None, ref = None,
                hint = JStr ''second hint''\<rparr>],
      console = []\<rparr>"
  by (simp add: build_defs hintProps_def)

lemma constructor_tagsProps:
  "constructor tagsProps =
     \<lparr>props = tagsProps, state = \<lparr>rendererDataTree = None, renderError = None\<rparr>,
      heap = [], console = []\<rparr>"
  by (simp add: build_defs tagsProps_def)

text \<open>
  C6 as claimed fails: an item that is a lone tags leaf builds without an error, and its
  tree is the value \<^verbatim>\<open>null\<close> the tags mapper returns, so the state of the component
  constructed for it has both fields null.
\<close>

theorem both_state_fields_null_counterexample:
  "reachable (constructor tagsProps) \<and>
   makeRendererDataTree
     \<lparr>props = tagsProps, state = \<lparr>rendererDataTree = None, renderError = None\<rparr>,
      heap = [], console = []\<rparr>
     (item tagsProps) (shape tagsProps) [] = Inr (Tags (), []) \<and>
   state (constructor tagsProps) = \<lparr>rendererDataTree = None, renderError = None\<rparr> \<and>
   \<not> stateOk (state (constructor tagsProps))"
proof -
  have "reachable (constructor tagsProps)" by (rule reachable.constructed)
  then show ?thesis
    unfolding constructor_tagsProps
    by (simp add: stateOk_def makeRendererDataTree_def rendererDataMapper_def itemToTree_def
        tagsProps_def)
qed

text \<open>
  C6, amended: the two fields of the state are never both non-null, in every state
  \<^verbatim>\<open>_tryMakeRendererState\<close> returns and in every reachable component. A build that throws
  gives the error and no tree; a build that returns gives no error and the built tree,
  which has the item's topology and is \<^verbatim>\<open>null\<close> only as the tree of a lone tags leaf. So
  exactly one field is non-null unless the item is a lone tags leaf.
\<close>

theorem state_fields_never_both:
  "(case makeRendererDataTree this (item p) (shape p) (heap this) of
      Inl e \<Rightarrow>
        fst (tryMakeRendererState this p) = \<lparr>rendererDataTree = None, renderError = Some e\<rparr>
    | Inr (t, h') \<Rightarrow>
        fst (tryMakeRendererState this p) = \<lparr>rendererDataTree = nullableTree t, renderError = None\<rparr> \<and>
        topology t = topology (multi (item p))) \<and>
   neverBoth (fst (tryMakeRendererState this p)) \<and>
   (topology (multi (item p)) \<noteq> TagsLeaf \<longrightarrow> stateOk (fst (tryMakeRendererState this p))) \<and>
   (reachable c \<longrightarrow> neverBoth (state c))"
proof (intro conjI)
  show "case makeRendererDataTree this (item p) (shape p) (heap this) of
      Inl e \<Rightarrow>
        fst (tryMakeRendererState this p) = \<lparr>rendererDataTree = None, renderError = Some e\<rparr>
    | Inr (t, h') \<Rightarrow>
        fst (tryMakeRendererState this p) = \<lparr>rendererDataTree = nullableTree t, renderError = None\<rparr> \<and>
        topology t = topology (multi (item p))"
    using tryMake_cases[of this p] by auto
  show "neverBoth (fst (tryMakeRendererState this p))"
    using tryMake_cases[of this p] by (auto simp: neverBoth_def)
  show "topology (multi (item p)) \<noteq> TagsLeaf \<longrightarrow> stateOk (fst (tryMakeRendererState this p))"
    using tryMake_cases[of this p] by (auto simp: stateOk_def nullableTree_not_tags)
  show "reachable c \<longrightarrow> neverBoth (state c)"
    using reachable_invariant[of c] by (simp add: invariant_def)
qed

theorem state_fields_never_both_witness:
  "reachable (receiveProps (constructor contentProps) mismatchProps) \<and>
   neverBoth (state (receiveProps (constructor contentProps) mismatchProps)) \<and>
   state (receiveProps (constructor contentProps) mismatchProps) =
     \<lparr>rendererDataTree = None, renderError = Some (ShapeMismatch [])\<rparr> \<and>
   topology (multi (item contentProps)) \<noteq> TagsLeaf \<and>
   stateOk (fst (tryMakeRendererState (constructor contentProps) contentProps)) \<and>
   fst (tryMakeRendererState (constructor contentProps) contentProps) =
     \<lparr>rendererDataTree = Some (Array [Content 2, Content 3] None), renderError = None\<rparr>"
proof -
  have r: "reachable (receiveProps (constructor contentProps) mismatchProps)"
    by (intro reachable.intros)
  have s: "state (receiveProps (constructor contentProps) mismatchProps) =
      \<lparr>rendererDataTree = None, renderError = Some (ShapeMismatch [])\<rparr>"
    unfolding constructor_contentProps by (simp add: step_defs example_defs)
  have t: "fst (tryMakeRendererState (constructor contentProps) contentProps) =
      \<lparr>rendererDataTree = Some (Array [Content 2, Content 3] None), renderError = None\<rparr>"
    unfolding constructor_contentProps by (simp add: step_defs example_defs)
  have n: "topology (multi (item contentProps)) \<noteq> TagsLeaf"
    by (simp add: contentProps_def)
  from state_fields_never_both[of "constructor contentProps" contentProps
      "receiveProps (constructor contentProps) mismatchProps"] r s t n
  show ?thesis by simp
qed

text \<open>
  C5: a build that throws does not propagate. If building the tree for the props throws
  the error \<open>e\<close>, \<^verbatim>\<open>_tryMakeRendererState\<close> returns the state with no tree and exactly \<open>e\<close> as
  its error, and logs \<open>e\<close>; so the constructor, and an update with a new item, leave the
  component in the errored state with \<open>e\<close>; and \<open>render\<close> in that state returns the error
  indicator showing \<open>e\<close>, not the content.
\<close>

theorem build_error_is_captured:
  assumes "makeRendererDataTree this (item p) (shape p) (heap this) = Inl e"
  shows "tryMakeRendererState this p =
           (\<lparr>rendererDataTree = None, renderError = Some e\<rparr>, this\<lparr>console := console this @ [e]\<rparr>) \<and>
         state (constructor p) = \<lparr>rendererDataTree = None, renderError = Some e\<rparr> \<and>
         console (constructor p) = [e] \<and>
         render (constructor p) = Inr (ErrorDiv e) \<and>
         (item_ref (item p) \<noteq> item_ref (item (props this)) \<longrightarrow>
            state (receiveProps this p) = \<lparr>rendererDataTree = None, renderError = Some e\<rparr> \<and>
            console (receiveProps this p) = console this @ [e] \<and>
            render (receiveProps this p) = Inr (ErrorDiv e))"
proof -
  from assms have m: "mismatch (multi (item p)) (shape p) [] = Some e"
    by (simp add: makeRendererDataTree_error)
  note t = tryMake_error[OF m]
  have c: "state (constructor p) = \<lparr>rendererDataTree = None, renderError = Some e\<rparr>"
    "console (constructor p) = [e]"
    by (simp_all add: constructor_def t)
  have r: "item_ref (item p) \<noteq> item_ref (item (props this)) \<Longrightarrow>
      state (receiveProps this p) = \<lparr>rendererDataTree = None, renderError = Some e\<rparr> \<and>
      console (receiveProps this p) = console this @ [e]"
    by (simp add: receiveProps_def componentWillReceiveProps_def t)
  from t c r show ?thesis by (auto intro: render_errored)
qed

theorem build_error_is_captured_witness:
  "makeRendererDataTree (constructor contentProps) (item mismatchProps) (shape mismatchProps)
     (heap (constructor contentProps)) = Inl (ShapeMismatch []) \<and>
   item_ref (item mismatchProps) \<noteq> item_ref (item (props (constructor contentProps))) \<and>
   state (receiveProps (constructor contentProps) mismatchProps) =
     \<lparr>rendererDataTree = None, renderError = Some (ShapeMismatch [])\<rparr> \<and>
   console (receiveProps (constructor contentProps) mismatchProps) = [ShapeMismatch []] \<and>
   render (receiveProps (constructor contentProps) mismatchProps) = Inr (ErrorDiv (ShapeMismatch [])) \<and>
   render (constructor mismatchProps) = Inr (ErrorDiv (ShapeMismatch []))"
proof -
  have b: "makeRendererDataTree (constructor contentProps) (item mismatchProps) (shape mismatchProps)
      (heap (constructor contentProps)) = Inl (ShapeMismatch [])"
    by (simp add: makeRendererDataTree_def itemToTree_def mismatchProps_def)
  have i: "item_ref (item mismatchProps) \<noteq> item_ref (item (props (constructor contentProps)))"
    unfolding constructor_contentProps by (simp add: example_defs)
  have c: "console (constructor contentProps) = []"
    by (simp add: constructor_contentProps)
  from build_error_is_captured[OF b] i c b show ?thesis by simp
qed

text \<open>
  C4: the cached tree is rebuilt exactly when the incoming item is another object than the
  current one. With the same item object the component is left as it is but for its props:
  the state and every cell are unchanged. With another item object, also one that is
  deeply equal, the state is replaced by what \<^verbatim>\<open>_tryMakeRendererState\<close> returns for the new
  props; when the item conforms to the shape (as a deeply equal item does whenever the
  current one did), that is a tree of the item's topology whose cells are all new (none
  is a cell of the current heap or of the current tree), each with a null back-reference,
  and the cells that existed are not touched. (The state holds the tree as the nullable
  value it is: the tree of a lone tags leaf, which has no cell, is \<^verbatim>\<open>null\<close>.)
\<close>

theorem rebuild_iff_item_identity_changes:
  assumes "reachable this"
  shows "(item_ref (item nextProps) = item_ref (item (props this)) \<longrightarrow>
            receiveProps this nextProps = this\<lparr>props := nextProps\<rparr>) \<and>
         (item_ref (item nextProps) \<noteq> item_ref (item (props this)) \<longrightarrow>
            receiveProps this nextProps =
              (snd (tryMakeRendererState this nextProps))
                \<lparr>state := fst (tryMakeRendererState this nextProps), props := nextProps\<rparr> \<and>
            (conforms (multi (item nextProps)) (shape nextProps) \<longrightarrow>
               (\<exists>t'. rendererDataTree (state (receiveProps this nextProps)) = nullableTree t' \<and>
                  (topology (multi (item nextProps)) \<noteq> TagsLeaf \<longrightarrow>
                     rendererDataTree (state (receiveProps this nextProps)) = Some t') \<and>
                  topology t' = topology (multi (item nextProps)) \<and>
                  (\<forall>a \<in> set (cells t').
                     length (heap this) \<le> a \<and> ref (heap (receiveProps this nextProps) ! a) = None) \<and>
                  (\<forall>t. rendererDataTree (state this) = Some t \<longrightarrow> set (cells t) \<inter> set (cells t') = {}) \<and>
                  (\<forall>a < length (heap this). heap (receiveProps this nextProps) ! a = heap this ! a))))"
proof (intro conjI impI)
  assume "item_ref (item nextProps) = item_ref (item (props this))"
  then show "receiveProps this nextProps = this\<lparr>props := nextProps\<rparr>"
    by (simp add: receiveProps_def componentWillReceiveProps_def)
next
  assume "item_ref (item nextProps) \<noteq> item_ref (item (props this))"
  then show "receiveProps this nextProps =
      (snd (tryMakeRendererState this nextProps))
        \<lparr>state := fst (tryMakeRendererState this nextProps), props := nextProps\<rparr>"
    by (simp add: receiveProps_def componentWillReceiveProps_def split: prod.splits)
next
  assume differs: "item_ref (item nextProps) \<noteq> item_ref (item (props this))"
    and conf: "conforms (multi (item nextProps)) (shape nextProps)"
  from conf have "\<exists>r. makeRendererDataTree this (item nextProps) (shape nextProps) (heap this) = Inr r"
    unfolding makeRendererDataTree_def itemToTree_def by (rule mapTree_conforms(1)[THEN iffD2])
  with tryMake_cases[of this nextProps] obtain t' new where
    r: "tryMakeRendererState this nextProps =
          (\<lparr>rendererDataTree = nullableTree t', renderError = None\<rparr>,
           this\<lparr>heap := heap this @ new\<rparr>)"
    and cs: "cells t' = [length (heap this)..<length (heap this) + length new]"
    and top: "topology t' = topology (multi (item nextProps))"
    and new: "\<forall>k < length new. cellOk (length (heap this) + k) (new ! k) \<and> ref (new ! k) = None"
    by auto
  from differs r have st: "rendererDataTree (state (receiveProps this nextProps)) = nullableTree t'"
    and hp: "heap (receiveProps this nextProps) = heap this @ new"
    by (simp_all add: receiveProps_def componentWillReceiveProps_def)
  have fresh: "\<forall>a \<in> set (cells t').
      length (heap this) \<le> a \<and> ref (heap (receiveProps this nextProps) ! a) = None"
  proof
    fix a assume "a \<in> set (cells t')"
    with cs have a: "length (heap this) \<le> a" "a - length (heap this) < length new" by auto
    with new have "ref (new ! (a - length (heap this))) = None" by blast
    with a hp show "length (heap this) \<le> a \<and> ref (heap (receiveProps this nextProps) ! a) = None"
      by (simp add: nth_append)
  qed
  have disjoint: "\<forall>t. rendererDataTree (state this) = Some t \<longrightarrow> set (cells t) \<inter> set (cells t') = {}"
  proof (intro allI impI)
    fix t assume t: "rendererDataTree (state this) = Some t"
    with reachable_invariant[OF assms] have "treeOk (heap this) t" by (simp add: invariant_def)
    then have "\<forall>a \<in> set (cells t). a < length (heap this)" by (blast dest: cells_allocated)
    with fresh show "set (cells t) \<inter> set (cells t') = {}" by fastforce
  qed
  have kept: "\<forall>a < length (heap this). heap (receiveProps this nextProps) ! a = heap this ! a"
    using hp by (simp add: nth_append)
  have some: "topology (multi (item nextProps)) \<noteq> TagsLeaf \<longrightarrow>
      rendererDataTree (state (receiveProps this nextProps)) = Some t'"
    using st top by (cases t') simp_all
  from st some top fresh disjoint kept
  show "\<exists>t'. rendererDataTree (state (receiveProps this nextProps)) = nullableTree t' \<and>
      (topology (multi (item nextProps)) \<noteq> TagsLeaf \<longrightarrow>
         rendererDataTree (state (receiveProps this nextProps)) = Some t') \<and>
      topology t' = topology (multi (item nextProps)) \<and>
      (\<forall>a \<in> set (cells t').
         length (heap this) \<le> a \<and> ref (heap (receiveProps this nextProps) ! a) = None) \<and>
      (\<forall>t. rendererDataTree (state this) = Some t \<longrightarrow> set (cells t) \<inter> set (cells t') = {}) \<and>
      (\<forall>a < length (heap this). heap (receiveProps this nextProps) ! a = heap this ! a)"
    by blast
qed

text \<open>
  The component built for \<open>contentProps\<close> with the leaf of its first cell mounted: an
  update with the deeply equal item of \<open>equalProps\<close> gives the new cells 2 and 3 with null
  back-references, and an update with the props it has changes nothing.
\<close>

theorem rebuild_iff_item_identity_changes_witness:
  "reachable (refCallback (constructor contentProps) 0 (Some (mountedRenderer ''w'' (JNum 1) JNull True))) \<and>
   item_ref (item equalProps) \<noteq> item_ref (item contentProps) \<and>
   multi (item equalProps) = multi (item contentProps) \<and>
   conforms (multi (item equalProps)) (shape equalProps) \<and>
   rendererDataTree (state (receiveProps
       (refCallback (constructor contentProps) 0 (Some (mountedRenderer ''w'' (JNum 1) JNull True)))
       equalProps)) = Some (Array [Content 2, Content 3] None) \<and>
   ref (heap (refCallback (constructor contentProps) 0 (Some (mountedRenderer ''w'' (JNum 1) JNull True))) ! 0)
     = Some (mountedRenderer ''w'' (JNum 1) JNull True) \<and>
   ref (heap (receiveProps
       (refCallback (constructor contentProps) 0 (Some (mountedRenderer ''w'' (JNum 1) JNull True)))
       equalProps) ! 2) = None \<and>
   receiveProps
       (refCallback (constructor contentProps) 0 (Some (mountedRenderer ''w'' (JNum 1) JNull True)))
       contentProps =
     refCallback (constructor contentProps) 0 (Some (mountedRenderer ''w'' (JNum 1) JNull True))"
proof -
  let ?i = "mountedRenderer ''w'' (JNum 1) JNull True"
  let ?c = "refCallback (constructor contentProps) 0 (Some ?i)"
  have r: "reachable ?c"
  proof (rule reachable.mounted[of "constructor contentProps" 0 JNull "JStr ''left''" 0])
    show "reachable (constructor contentProps)" by (rule reachable.constructed)
  qed (simp_all add: constructor_contentProps)
  have p: "props ?c = contentProps"
    by (simp add: refCallback_def constructor_contentProps)
  have i: "item_ref (item equalProps) \<noteq> item_ref (item contentProps)"
    "multi (item equalProps) = multi (item contentProps)"
    "conforms (multi (item equalProps)) (shape equalProps)"
    by (simp_all add: example_defs)
  have t: "rendererDataTree (state (receiveProps ?c equalProps)) = Some (Array [Content 2, Content 3] None)"
    unfolding constructor_contentProps by (simp add: step_defs example_defs)
  have m: "ref (heap ?c ! 0) = Some ?i"
    by (simp add: refCallback_def constructor_contentProps)
  have d: "item_ref (item equalProps) \<noteq> item_ref (item (props ?c))"
    using i(1) p by simp
  from rebuild_iff_item_identity_changes[OF r, of equalProps, THEN conjunct2, rule_format, OF d,
      THEN conjunct2, rule_format, OF i(3)]
  obtain t' where t': "rendererDataTree (state (receiveProps ?c equalProps)) = nullableTree t'"
    and f: "\<forall>a \<in> set (cells t').
      length (heap ?c) \<le> a \<and> ref (heap (receiveProps ?c equalProps) ! a) = None"
    by blast
  from t t' have "t' = Array [Content 2, Content 3] None" by (simp add: nullableTree_Some)
  with f have n: "ref (heap (receiveProps ?c equalProps) ! 2) = None" by simp
  from rebuild_iff_item_identity_changes[OF r, of contentProps] p
  have s: "receiveProps ?c contentProps = ?c" by simp
  from r i t m n s show ?thesis by simp
qed

section \<open>Widget discovery across leaves\<close>

lemma bothMounted_eq:
  "bothMounted sync =
     \<lparr>props = contentProps,
      state = \<lparr>rendererDataTree = Some (Array [Content 0, Content 1] None), renderError = None\<rparr>,
      heap = [\<lparr>renderer = RendererElement JNull (JStr ''left'') 0,
                ref = Some (mountedRenderer ''w0'' (JNum 1) (JStr ''a'') sync), hint = JUndefined\<rparr>,
              \<lparr>renderer = RendererElement JNull (JStr ''right'') 1,
                ref = Some (mountedRenderer ''w1'' (JNum 0) (JStr ''b'') sync), hint = JUndefined\<rparr>],
      console = []\<rparr>"
  by (simp add: bothMounted_def constructor_contentProps refCallback_def)

lemma bothMounted_ready:
  "rendererDataTree (state (bothMounted sync)) = Some (Array [Content 0, Content 1] None)"
  "conforms (Array [Content 0, Content 1] None) (shape (props (bothMounted sync)))"
  by (simp_all add: bothMounted_eq contentProps_def)







section \<open>The composite score\<close>

text \<open>
  C1: the claim is that \<open>score\<close> returns the identity score and never throws when no leaf
  score was collected. The code reduces the collected scores with no initial value. In the
  errored state (no cached tree), and with a tree none of whose leaves is mounted, the
  collected scores are empty and \<open>score\<close> throws the TypeError of \<^verbatim>\<open>reduce\<close>, whatever the
  combine operator and the score conversion are (in general: \<open>score_errored\<close> and
  \<open>score_unmounted\<close> above; here at three components).
\<close>

theorem score_throws_without_scores:
  "score combine ke (constructor mismatchProps) =
     Inl (TypeError ''Reduce of empty array with no initial value'') \<and>
   score combine ke (constructor contentProps) =
     Inl (TypeError ''Reduce of empty array with no initial value'') \<and>
   score combine ke (constructor hintProps) =
     Inl (TypeError ''Reduce of empty array with no initial value'')"
  by (simp add: constructor_contentProps constructor_hintProps score_def mapRenderers_def
      contentProps_def hintProps_def)
     (simp add: build_defs mismatchProps_def)

section \<open>Completion of a restoration\<close>

text \<open>
  C2: the claim is that the overall callback is invoked exactly once, and only after all
  dispatched leaves have completed, also when a leaf completes synchronously during its
  own dispatch. The code counts a restoration just before it dispatches it, so a leaf that
  completes at once takes the counter back to zero before the next leaf is counted. With
  two mounted leaves that both complete synchronously and a state for each, the overall
  callback is invoked after the first leaf, before the second is dispatched, and again
  after the second: twice. (When no leaf completes synchronously the code does what the
  claim says: \<open>restore_async_exactly_once\<close> above.)
\<close>

theorem overall_callback_early_and_twice:
  "restoreSerializedState (bothMounted True)
     (JArr [JObj [(''w0'', JStr ''a'')], JObj [(''w1'', JStr ''b'')]]) True =
     Inr \<lparr>numCallbacks = 0, pending = [],
          events = [Dispatched 0 (JObj [(''w0'', JStr ''a'')]), LeafCompleted 0, OverallCallback,
                    Dispatched 1 (JObj [(''w1'', JStr ''b'')]), LeafCompleted 1, OverallCallback]\<rparr> \<and>
   overallCalls
     [Dispatched 0 (JObj [(''w0'', JStr ''a'')]), LeafCompleted 0, OverallCallback,
      Dispatched 1 (JObj [(''w1'', JStr ''b'')]), LeafCompleted 1, OverallCallback] = 2"
  by (simp add: restore_eq[OF bothMounted_ready] overallCalls_def)
     (simp add: bothMounted_eq restoreLeaf_def instRestoreSerializedState_def leafCompletes_def
        countCallback_def noRestoration_def mountedRenderer_def)

text \<open>
  C9: a call that dispatches no restoration never invokes the overall callback. In the
  errored state, and when every leaf of the cached tree is unmounted or has no truthy
  value at its path in the state tree, the call does nothing at all; and whenever a call
  that returns has dispatched nothing, the overall callback has not been invoked, no leaf
  holds the completion callback, and so no later completion can invoke it either.
\<close>

theorem no_dispatch_no_callback:
  "(rendererDataTree (state this) = None \<longrightarrow>
      restoreSerializedState this serializedState callback = Inr noRestoration) \<and>
   (rendererDataTree (state this) = Some t \<and> conforms t (shape (props this)) \<and>
    (\<forall>(a, p) \<in> set (cellPaths t []). \<not> mounted this a \<or> \<not> truthy (lens_get serializedState p)) \<longrightarrow>
      restoreSerializedState this serializedState callback = Inr noRestoration) \<and>
   (restoreSerializedState this serializedState callback = Inr r \<and> dispatches (events r) = [] \<longrightarrow>
      overallCalls (events r) = 0 \<and> pending r = [] \<and>
      (\<forall>as. overallCalls (events (laterCompletions callback as r)) = 0))"
proof (intro conjI impI)
  assume "rendererDataTree (state this) = None"
  then show "restoreSerializedState this serializedState callback = Inr noRestoration"
    by (rule restore_errored)
next
  assume a: "rendererDataTree (state this) = Some t \<and> conforms t (shape (props this)) \<and>
    (\<forall>(a, p) \<in> set (cellPaths t []). \<not> mounted this a \<or> \<not> truthy (lens_get serializedState p))"
  then show "restoreSerializedState this serializedState callback = Inr noRestoration"
    by (simp add: restore_eq restore_fold_skip)
next
  assume a: "restoreSerializedState this serializedState callback = Inr r \<and> dispatches (events r) = []"
  from a restore_returns[of this serializedState callback r]
  consider "r = noRestoration"
    | t where "r = foldl (\<lambda>r (a, p). restoreLeaf this serializedState callback a p r)
        noRestoration (cellPaths t [])"
    by blast
  then have r: "r = noRestoration"
  proof cases
    case 1
    then show ?thesis .
  next
    case t: 2
    from a have "dispatches (events r) = []" by simp
    then have "filter (\<lambda>(a, p). mounted this a \<and> truthy (lens_get serializedState p))
        (cellPaths t []) = []"
      unfolding t restore_fold_dispatches by simp
    then have "\<forall>(a, p) \<in> set (cellPaths t []).
        \<not> mounted this a \<or> \<not> truthy (lens_get serializedState p)"
      by (auto simp: filter_empty_conv)
    from restore_fold_skip[OF this] t show ?thesis by simp
  qed
  show "overallCalls (events r) = 0" "pending r = []"
    "\<forall>as. overallCalls (events (laterCompletions callback as r)) = 0"
  proof -
    have p: "pending noRestoration = []" "events noRestoration = []"
      by (simp_all add: noRestoration_def)
    show "overallCalls (events r) = 0" "pending r = []"
      "\<forall>as. overallCalls (events (laterCompletions callback as r)) = 0"
      by (simp_all add: r laterCompletions_none[OF p(1)] p overallCalls_def)
  qed
qed

theorem no_dispatch_no_callback_witness:
  "rendererDataTree (state (constructor mismatchProps)) = None \<and>
   restoreSerializedState (constructor mismatchProps) (JArr [JObj [], JObj []]) True = Inr noRestoration \<and>
   rendererDataTree (state (constructor contentProps)) = Some (Array [Content 0, Content 1] None) \<and>
   conforms (Array [Content 0, Content 1] None) (shape (props (constructor contentProps))) \<and>
   \<not> mounted (constructor contentProps) 0 \<and> \<not> mounted (constructor contentProps) 1 \<and>
   restoreSerializedState (constructor contentProps) (JArr [JObj [], JObj []]) True = Inr noRestoration \<and>
   dispatches (events noRestoration) = [] \<and>
   overallCalls (events (laterCompletions True [0, 1] noRestoration)) = 0"
proof -
  have e: "rendererDataTree (state (constructor mismatchProps)) = None"
    by (simp add: build_defs mismatchProps_def)
  have t: "rendererDataTree (state (constructor contentProps)) = Some (Array [Content 0, Content 1] None)"
    "conforms (Array [Content 0, Content 1] None) (shape (props (constructor contentProps)))"
    by (simp_all add: constructor_contentProps) (simp add: contentProps_def)
  have m: "\<not> mounted (constructor contentProps) 0" "\<not> mounted (constructor contentProps) 1"
    by (simp_all add: mounted_def constructor_contentProps)
  have p: "\<forall>(a, p) \<in> set (cellPaths (Array [Content 0, Content 1] None) []).
      \<not> mounted (constructor contentProps) a \<or> \<not> truthy (lens_get (JArr [JObj [], JObj []]) p)"
    using m by simp
  note w = no_dispatch_no_callback[of _ "JArr [JObj [], JObj []]" True]
  from w[of "constructor mismatchProps"] e
  have 1: "restoreSerializedState (constructor mismatchProps) (JArr [JObj [], JObj []]) True =
      Inr noRestoration" by blast
  from w[of "constructor contentProps" "Array [Content 0, Content 1] None"] t p
  have 2: "restoreSerializedState (constructor contentProps) (JArr [JObj [], JObj []]) True =
      Inr noRestoration" by blast
  have 3: "dispatches (events noRestoration) = []" by (simp add: noRestoration_def)
  from w[of "constructor contentProps" _ noRestoration] 2 3
  have 4: "overallCalls (events (laterCompletions True [0, 1] noRestoration)) = 0" by blast
  from e t m 1 2 3 4 show ?thesis by simp
qed

section \<open>The tree of scores\<close>

lemma firstMounted_eq:
  "firstMounted =
     \<lparr>props = contentProps,
      state = \<lparr>rendererDataTree = Some (Array [Content 0, Content 1] None), renderError = None\<rparr>,
      heap = [\<lparr>renderer = RendererElement JNull (JStr ''left'') 0,
                ref = Some (mountedRenderer ''w0'' (JNum 1) (JStr ''a'') False), hint = JUndefined\<rparr>,
              \<lparr>renderer = RendererElement JNull (JStr ''right'') 1, ref = None, hint = JUndefined\<rparr>],
      console = []\<rparr>"
  by (simp add: firstMounted_def constructor_contentProps refCallback_def)


lemma firstMounted_ready:
  "rendererDataTree (state firstMounted) = Some (Array [Content 0, Content 1] None)"
  "conforms (Array [Content 0, Content 1] None) (shape (props firstMounted))"
  by (simp_all add: firstMounted_eq contentProps_def)

lemma hintProps_ready:
  "rendererDataTree (state (constructor hintProps)) = Some (Array [Hint 0, Hint 1] None)"
  "conforms (Array [Hint 0, Hint 1] None) (shape (props (constructor hintProps)))"
  unfolding constructor_hintProps by (simp_all add: hintProps_def)




section \<open>The tree of renderers and the hint arrays\<close>

text \<open>
  C8: \<^verbatim>\<open>_annotateRendererArray\<close> attaches \<^verbatim>\<open>firstN\<close> exactly to the arrays whose element shape is
  the hint shape. For such an array it returns a new array, a copy of the elements of the
  mapped children with the \<^verbatim>\<open>firstN\<close> closure over the cells of the array, and leaves every
  array that existed, the mapped children among them, as it was; for any other element
  shape it returns the array it was given and changes nothing. So the tree
  \<^verbatim>\<open>_getRenderers\<close> exposes has the renderer element of the cell at every leaf and \<^verbatim>\<open>firstN\<close> at
  exactly the arrays of hints.
\<close>

theorem firstN_on_hint_arrays_only:
  "(renderers < length arrays \<longrightarrow>
      (case annotateRendererArray arrays renderers rendererDatas (ArrayShape es) of
         (arrays', r') \<Rightarrow>
           (es = HintShape \<longrightarrow>
              r' = length arrays \<and> r' \<noteq> renderers \<and> length arrays' = Suc (length arrays) \<and>
              arrays' ! r' =
                \<lparr>elems = elems (arrays ! renderers), firstNProp = Some (FirstN rendererDatas)\<rparr> \<and>
              (\<forall>i < length arrays. arrays' ! i = arrays ! i)) \<and>
           (es \<noteq> HintShape \<longrightarrow> arrays' = arrays \<and> r' = renderers) \<and>
           (firstNProp (arrays ! renderers) = None \<longrightarrow>
              (firstNProp (arrays' ! r') \<noteq> None) = (es = HintShape)))) \<and>
   (rendererDataTree (state this) = Some t \<and> conforms t (shape (props this)) \<longrightarrow>
      getRenderers this = Inr (Some (renderersOf this t (shape (props this)))))"
proof (intro conjI impI)
  assume "renderers < length arrays"
  then show "case annotateRendererArray arrays renderers rendererDatas (ArrayShape es) of
      (arrays', r') \<Rightarrow>
        (es = HintShape \<longrightarrow>
           r' = length arrays \<and> r' \<noteq> renderers \<and> length arrays' = Suc (length arrays) \<and>
           arrays' ! r' =
             \<lparr>elems = elems (arrays ! renderers), firstNProp = Some (FirstN rendererDatas)\<rparr> \<and>
           (\<forall>i < length arrays. arrays' ! i = arrays ! i)) \<and>
        (es \<noteq> HintShape \<longrightarrow> arrays' = arrays \<and> r' = renderers) \<and>
        (firstNProp (arrays ! renderers) = None \<longrightarrow>
           (firstNProp (arrays' ! r') \<noteq> None) = (es = HintShape))"
    by (cases es) (simp_all add: annotateRendererArray_def nth_append)
next
  assume "rendererDataTree (state this) = Some t \<and> conforms t (shape (props this))"
  then show "getRenderers this = Inr (Some (renderersOf this t (shape (props this))))"
    by (simp add: getRenderers_eq)
qed

text \<open>
  An array of two hint renderers is copied and annotated; the same array under the
  element shape of content is returned as it is. The component of the two hints exposes
  its array with \<^verbatim>\<open>firstN\<close>, the component of the two content nodes without.
\<close>

theorem firstN_on_hint_arrays_only_witness:
  "(0::nat) < length [\<lparr>elems = [JStr ''r0'', JStr ''r1''], firstNProp = None\<rparr>] \<and>
   annotateRendererArray [\<lparr>elems = [JStr ''r0'', JStr ''r1''], firstNProp = None\<rparr>] 0
       [Hint 0, Hint 1] (ArrayShape HintShape) =
     ([\<lparr>elems = [JStr ''r0'', JStr ''r1''], firstNProp = None\<rparr>,
       \<lparr>elems = [JStr ''r0'', JStr ''r1''], firstNProp = Some (FirstN [Hint 0, Hint 1])\<rparr>], 1) \<and>
   annotateRendererArray [\<lparr>elems = [JStr ''r0'', JStr ''r1''], firstNProp = None\<rparr>] 0
       [Content 0, Content 1] (ArrayShape ContentShape) =
     ([\<lparr>elems = [JStr ''r0'', JStr ''r1''], firstNProp = None\<rparr>], 0) \<and>
   rendererDataTree (state (constructor hintProps)) = Some (Array [Hint 0, Hint 1] None) \<and>
   conforms (Array [Hint 0, Hint 1] None) (shape (props (constructor hintProps))) \<and>
   getRenderers (constructor hintProps) =
     Inr (Some (Array [Hint (HintsRendererElement JNull [JStr ''first hint''] None),
                       Hint (HintsRendererElement JNull [JStr ''second hint''] None)]
                  (Some (FirstN [Hint 0, Hint 1])))) \<and>
   callFirstN (constructor hintProps) (FirstN [Hint 0, Hint 1]) 1 =
     HintsRendererElement JNull [JStr ''first hint'', JStr ''second hint''] (Some 1) \<and>
   getRenderers firstMounted =
     Inr (Some (Array [Content (RendererElement JNull (JStr ''left'') 0),
                       Content (RendererElement JNull (JStr ''right'') 1)] None))"
proof -
  let ?a = "[\<lparr>elems = [JStr ''r0'', JStr ''r1''], firstNProp = None\<rparr>]"
  have 0: "(0::nat) < length ?a" by simp
  have 1: "annotateRendererArray ?a 0 [Hint 0, Hint 1] (ArrayShape HintShape) =
      (?a @ [\<lparr>elems = [JStr ''r0'', JStr ''r1''], firstNProp = Some (FirstN [Hint 0, Hint 1])\<rparr>], 1)"
    by (simp add: annotateRendererArray_def)
  have 2: "annotateRendererArray ?a 0 [Content 0, Content 1] (ArrayShape ContentShape) = (?a, 0)"
    by (simp add: annotateRendererArray_def)
  from firstN_on_hint_arrays_only[where renderers = 0 and arrays = ?a
      and rendererDatas = "[Hint 0, Hint 1]" and es = HintShape
      and this = "constructor hintProps" and t = "Array [Hint 0, Hint 1] None"] hintProps_ready
  have 3: "getRenderers (constructor hintProps) =
      Inr (Some (renderersOf (constructor hintProps) (Array [Hint 0, Hint 1] None)
                   (shape (props (constructor hintProps)))))"
    by blast
  from firstN_on_hint_arrays_only[where renderers = 0 and arrays = ?a
      and rendererDatas = "[Content 0, Content 1]" and es = ContentShape
      and this = firstMounted and t = "Array [Content 0, Content 1] None"] firstMounted_ready
  have 4: "getRenderers firstMounted =
      Inr (Some (renderersOf firstMounted (Array [Content 0, Content 1] None)
                   (shape (props firstMounted))))"
    by blast
  have 5: "renderersOf (constructor hintProps) (Array [Hint 0, Hint 1] None)
        (shape (props (constructor hintProps))) =
      Array [Hint (HintsRendererElement JNull [JStr ''first hint''] None),
             Hint (HintsRendererElement JNull [JStr ''second hint''] None)]
        (Some (FirstN [Hint 0, Hint 1]))"
    unfolding constructor_hintProps by (simp add: hintProps_def)
  have 6: "renderersOf firstMounted (Array [Content 0, Content 1] None) (shape (props firstMounted)) =
      Array [Content (RendererElement JNull (JStr ''left'') 0),
             Content (RendererElement JNull (JStr ''right'') 1)] None"
    unfolding firstMounted_eq by (simp add: contentProps_def)
  have 7: "callFirstN (constructor hintProps) (FirstN [Hint 0, Hint 1]) 1 =
      HintsRendererElement JNull [JStr ''first hint'', JStr ''second hint''] (Some 1)"
    unfolding constructor_hintProps by (simp add: getRendererProps_def hintProps_def)
  from 0 1 2 3 4 5 6 7 hintProps_ready show ?thesis by simp
qed

section \<open>Hint cells\<close>

text \<open>
  C10: a cell built for a hint leaf has a null back-reference, and it stays null: in every
  reachable component every hint cell of the heap, whether it is still in the cached tree
  or not, has a null back-reference. So for the cached tree (conforming to the shape it
  is traversed with) the cells at the hint leaves are hint cells and are not mounted;
  \<^verbatim>\<open>_findWidgets\<close> collects from no hint leaf; \<open>getScores\<close> and \<open>getSerializedState\<close> have \<^verbatim>\<open>null\<close>
  at every hint leaf; and \<open>restoreSerializedState\<close> dispatches no restoration to a hint
  leaf.
\<close>

theorem hint_cells_stay_unmounted:
  assumes "reachable this"
  shows "(\<forall>c hnt h.
            \<not> isRenderer (renderer (snd (makeHintRendererData c hnt h) ! fst (makeHintRendererData c hnt h))) \<and>
            ref (snd (makeHintRendererData c hnt h) ! fst (makeHintRendererData c hnt h)) = None) \<and>
         (\<forall>a < length (heap this).
            \<not> isRenderer (renderer (heap this ! a)) \<longrightarrow> ref (heap this ! a) = None) \<and>
         (\<forall>t. rendererDataTree (state this) = Some t \<and> conforms t (shape (props this)) \<longrightarrow>
            (\<forall>a \<in> set (hintCells t).
               a < length (heap this) \<and> \<not> isRenderer (renderer (heap this ! a)) \<and> \<not> mounted this a) \<and>
            (\<forall>callingData criterion.
               findWidgets this callingData criterion =
                 Inr (concat (map (leafWidgets this criterion)
                        (filter (\<lambda>a. a \<noteq> callingData \<and> mounted this a \<and> a \<notin> set (hintCells t))
                           (cells t))))) \<and>
            (\<forall>ke. \<exists>r. getScores ke this = Inr (Some r) \<and> (\<forall>v \<in> set (hintValues r). v = JNull)) \<and>
            (\<exists>r. getSerializedState this = Inr (Some r) \<and> (\<forall>v \<in> set (hintValues r). v = JNull)) \<and>
            (\<forall>serializedState callback r.
               restoreSerializedState this serializedState callback = Inr r \<longrightarrow>
               (\<forall>(a, st) \<in> set (dispatches (events r)). a \<notin> set (hintCells t))))"
proof -
  have built: "\<forall>c hnt h.
      \<not> isRenderer (renderer (snd (makeHintRendererData c hnt h) ! fst (makeHintRendererData c hnt h))) \<and>
      ref (snd (makeHintRendererData c hnt h) ! fst (makeHintRendererData c hnt h)) = None"
    by (simp add: makeHintRendererData_def)
  have stays: "\<forall>a < length (heap this).
      \<not> isRenderer (renderer (heap this ! a)) \<longrightarrow> ref (heap this ! a) = None"
    using reachable_invariant[OF assms]
    by (auto simp: invariant_def heapOk_def intro: hint_cell_null)
  have passed: "\<forall>t. rendererDataTree (state this) = Some t \<and> conforms t (shape (props this)) \<longrightarrow>
      (\<forall>a \<in> set (hintCells t).
         a < length (heap this) \<and> \<not> isRenderer (renderer (heap this ! a)) \<and> \<not> mounted this a) \<and>
      (\<forall>callingData criterion.
         findWidgets this callingData criterion =
           Inr (concat (map (leafWidgets this criterion)
                  (filter (\<lambda>a. a \<noteq> callingData \<and> mounted this a \<and> a \<notin> set (hintCells t))
                     (cells t))))) \<and>
      (\<forall>ke. \<exists>r. getScores ke this = Inr (Some r) \<and> (\<forall>v \<in> set (hintValues r). v = JNull)) \<and>
      (\<exists>r. getSerializedState this = Inr (Some r) \<and> (\<forall>v \<in> set (hintValues r). v = JNull)) \<and>
      (\<forall>serializedState callback r.
         restoreSerializedState this serializedState callback = Inr r \<longrightarrow>
         (\<forall>(a, st) \<in> set (dispatches (events r)). a \<notin> set (hintCells t)))"
  proof (rule allI, rule impI)
    fix t
    assume "rendererDataTree (state this) = Some t \<and> conforms t (shape (props this))"
    then have ready: "rendererDataTree (state this) = Some t" "conforms t (shape (props this))"
      by simp_all
    from reachable_invariant[OF assms] ready(1) have ok: "treeOk (heap this) t"
      by (simp add: invariant_def)
    have null: "\<And>a. a \<in> set (hintCells t) \<Longrightarrow> ref (heap this ! a) = None"
      by (rule reachable_hintCells[OF assms ready(1)])
    have 1: "\<forall>a \<in> set (hintCells t).
        a < length (heap this) \<and> \<not> isRenderer (renderer (heap this ! a)) \<and> \<not> mounted this a"
      using hintCells_treeOk[OF ok] null by (simp add: mounted_def)
    have 2: "\<forall>callingData criterion.
        findWidgets this callingData criterion =
          Inr (concat (map (leafWidgets this criterion)
                 (filter (\<lambda>a. a \<noteq> callingData \<and> mounted this a \<and> a \<notin> set (hintCells t)) (cells t))))"
    proof (intro allI)
      fix callingData criterion
      have "filter (\<lambda>a. a \<noteq> callingData \<and> mounted this a \<and> a \<notin> set (hintCells t)) (cells t) =
          filter (\<lambda>a. a \<noteq> callingData \<and> mounted this a) (cells t)"
        by (rule filter_cong) (auto simp: mounted_def dest: null)
      then show "findWidgets this callingData criterion =
          Inr (concat (map (leafWidgets this criterion)
                 (filter (\<lambda>a. a \<noteq> callingData \<and> mounted this a \<and> a \<notin> set (hintCells t)) (cells t))))"
        by (simp add: findWidgets_eq[OF ready])
    qed
    have 3: "\<forall>ke. \<exists>r. getScores ke this = Inr (Some r) \<and> (\<forall>v \<in> set (hintValues r). v = JNull)"
      using null by (auto simp: getScores_eq[OF ready] hintValues_mapLeaves leafScore_def)
    have 4: "\<exists>r. getSerializedState this = Inr (Some r) \<and> (\<forall>v \<in> set (hintValues r). v = JNull)"
      using null
      by (auto simp: getSerializedState_eq[OF ready] hintValues_mapLeaves leafSerializedState_def)
    have 5: "\<forall>serializedState callback r.
        restoreSerializedState this serializedState callback = Inr r \<longrightarrow>
        (\<forall>(a, st) \<in> set (dispatches (events r)). a \<notin> set (hintCells t))"
    proof (intro allI impI)
      fix serializedState callback r
      assume "restoreSerializedState this serializedState callback = Inr r"
      with restore_eq[OF ready, of serializedState callback]
      have "dispatches (events r) =
          map (\<lambda>(a, p). (a, lens_get serializedState p))
            (filter (\<lambda>(a, p). mounted this a \<and> truthy (lens_get serializedState p)) (cellPaths t []))"
        by (simp add: restore_fold_dispatches noRestoration_def)
      then have "\<forall>(a, st) \<in> set (dispatches (events r)). mounted this a" by auto
      then show "\<forall>(a, st) \<in> set (dispatches (events r)). a \<notin> set (hintCells t)"
        using null by (fastforce simp: mounted_def)
    qed
    show "(\<forall>a \<in> set (hintCells t).
         a < length (heap this) \<and> \<not> isRenderer (renderer (heap this ! a)) \<and> \<not> mounted this a) \<and>
      (\<forall>callingData criterion.
         findWidgets this callingData criterion =
           Inr (concat (map (leafWidgets this criterion)
                  (filter (\<lambda>a. a \<noteq> callingData \<and> mounted this a \<and> a \<notin> set (hintCells t))
                     (cells t))))) \<and>
      (\<forall>ke. \<exists>r. getScores ke this = Inr (Some r) \<and> (\<forall>v \<in> set (hintValues r). v = JNull)) \<and>
      (\<exists>r. getSerializedState this = Inr (Some r) \<and> (\<forall>v \<in> set (hintValues r). v = JNull)) \<and>
      (\<forall>serializedState callback r.
         restoreSerializedState this serializedState callback = Inr r \<longrightarrow>
         (\<forall>(a, st) \<in> set (dispatches (events r)). a \<notin> set (hintCells t)))"
      by (intro conjI 1 2 3 4 5)
  qed
  show ?thesis by (intro conjI built stays passed)
qed

text \<open>
  The component of the two hints: React cannot mount its hint cells (they carry no
  \<^verbatim>\<open>ref\<close> closure), and every operation passes them by, also with a state for each.
\<close>

theorem hint_cells_stay_unmounted_witness:
  "reachable (constructor hintProps) \<and>
   rendererDataTree (state (constructor hintProps)) = Some (Array [Hint 0, Hint 1] None) \<and>
   conforms (Array [Hint 0, Hint 1] None) (shape (props (constructor hintProps))) \<and>
   hintCells (Array [Hint 0, Hint 1] None) = [0, 1] \<and>
   \<not> mounted (constructor hintProps) 0 \<and> \<not> mounted (constructor hintProps) 1 \<and>
   findWidgets (constructor hintProps) 7 JNull = Inr [] \<and>
   getSerializedState (constructor hintProps) = Inr (Some (Array [Hint JNull, Hint JNull] None)) \<and>
   restoreSerializedState (constructor hintProps) (JArr [JObj [], JObj []]) True = Inr noRestoration \<and>
   dispatches (events noRestoration) = []"
proof -
  note h = hint_cells_stay_unmounted[OF reachable.constructed[of hintProps],
      THEN conjunct2, THEN conjunct2, rule_format, of "Array [Hint 0, Hint 1] None",
      OF conjI[OF hintProps_ready]]
  have c: "hintCells (Array [Hint 0, Hint 1] None) = [0, 1]" by simp
  from h[THEN conjunct1] c
  have m: "\<not> mounted (constructor hintProps) 0" "\<not> mounted (constructor hintProps) 1"
    by simp_all
  from h[THEN conjunct2, THEN conjunct1, rule_format, of 7 JNull] m
  have f: "findWidgets (constructor hintProps) 7 JNull = Inr []" by simp
  have s: "getSerializedState (constructor hintProps) = Inr (Some (Array [Hint JNull, Hint JNull] None))"
    using m by (simp add: getSerializedState_eq[OF hintProps_ready] leafSerializedState_def mounted_def)
  have r: "restoreSerializedState (constructor hintProps) (JArr [JObj [], JObj []]) True = Inr noRestoration"
    using m by (simp add: restore_eq[OF hintProps_ready] restoreLeaf_skip)
  have d: "dispatches (events noRestoration) = []" by (simp add: noRestoration_def)
  from reachable.constructed[of hintProps] hintProps_ready c m f s r d show ?thesis by simp
qed

end
